theory Spec2Isabelle
  imports Main "HOL-Library.Word"
begin

section \<open>Pixels and the two compositing operators\<close>

text \<open>
  A canvas bitmap and an \<open>ImageData\<close> hold 8-bit RGBA pixels (\<open>Uint8ClampedArray\<close>).
  The bitmap is modelled with straight (non-premultiplied) alpha; the channel arithmetic of
  the Porter-Duff operators is done on natural numbers and stored back clamped to 0..255.
\<close>

type_synonym u8 = "8 word"

record pixel =
  red :: u8
  green :: u8
  blue :: u8
  alpha :: u8

definition transparent :: pixel where
  "transparent = \<lparr>red = 0, green = 0, blue = 0, alpha = 0\<rparr>"

definition clamp8 :: "nat \<Rightarrow> u8" where
  "clamp8 n = of_nat (min n 255)"

text \<open>Division rounded to the nearest integer, as on storing into a clamped byte array.\<close>

definition rdiv :: "nat \<Rightarrow> nat \<Rightarrow> nat" where
  "rdiv n d = (2 * n + d) div (2 * d)"

text \<open>The values of \<open>globalCompositeOperation\<close> that ImageWorkspace.tsx sets.\<close>

datatype compositeOp = SourceOver | DestinationOut

text \<open>
  \<open>globalAlpha\<close> is kept in 255ths: \<open>1.0\<close> is 255 and \<open>0.6\<close> is 153.
  \<open>coverage g s\<close> is the source alpha times the global alpha, on the scale 0..65025.
\<close>

definition coverage :: "nat \<Rightarrow> pixel \<Rightarrow> nat" where
  "coverage g s = unat (alpha s) * g"

text \<open>
  source-over: \<open>ao = as + ab (1 - as)\<close>, \<open>co = (cs as + cb ab (1 - as)) / ao\<close>.
  Where the result has no coverage at all the backdrop pixel is kept.
\<close>

definition sourceOverChan :: "nat \<Rightarrow> nat \<Rightarrow> u8 \<Rightarrow> u8 \<Rightarrow> u8" where
  "sourceOverChan S B cs cb =
     (let A = S * 255 + B * (65025 - S)
      in if A = 0 then cb
         else clamp8 (rdiv (unat cs * S * 255 + unat cb * B * (65025 - S)) A))"

definition sourceOver :: "nat \<Rightarrow> pixel \<Rightarrow> pixel \<Rightarrow> pixel" where
  "sourceOver g s d =
     (let S = coverage g s; B = unat (alpha d)
      in \<lparr>red = sourceOverChan S B (red s) (red d),
          green = sourceOverChan S B (green s) (green d),
          blue = sourceOverChan S B (blue s) (blue d),
          alpha = clamp8 (rdiv (S * 255 + B * (65025 - S)) 65025)\<rparr>)"

text \<open>destination-out: \<open>ao = ab (1 - as)\<close>, the backdrop colour is kept.\<close>

definition destinationOut :: "nat \<Rightarrow> pixel \<Rightarrow> pixel \<Rightarrow> pixel" where
  "destinationOut g s d =
     d\<lparr>alpha := clamp8 (rdiv (unat (alpha d) * (65025 - coverage g s)) 65025)\<rparr>"

fun blend :: "compositeOp \<Rightarrow> nat \<Rightarrow> pixel \<Rightarrow> pixel \<Rightarrow> pixel" where
  "blend SourceOver g s d = sourceOver g s d"
| "blend DestinationOut g s d = destinationOut g s d"

section \<open>Bitmaps: canvases, images and ImageData\<close>

record bitmap =
  width :: nat
  height :: nat
  data :: "pixel list"

definition wellFormed :: "bitmap \<Rightarrow> bool" where
  "wellFormed b \<longleftrightarrow> length (data b) = width b * height b"

definition sameSize :: "bitmap \<Rightarrow> bitmap \<Rightarrow> bool" where
  "sameSize a b \<longleftrightarrow> width a = width b \<and> height a = height b"

text \<open>Reading a pixel by its row-major index; outside the array nothing is there.\<close>

definition px :: "bitmap \<Rightarrow> nat \<Rightarrow> pixel" where
  "px b i = (if i < length (data b) then data b ! i else transparent)"

text \<open>\<open>document.createElement('canvas')\<close> with its width and height set: transparent black.\<close>

definition createCanvas :: "nat \<Rightarrow> nat \<Rightarrow> bitmap" where
  "createCanvas w h = \<lparr>width = w, height = h, data = replicate (w * h) transparent\<rparr>"

text \<open>
  Every drawing call of the component puts a source at offset (0,0) of a target canvas.
  \<open>paint f src dst\<close> combines, for each target pixel that the source covers, the source
  pixel with the target pixel by \<open>f\<close>; the target keeps its size and its other pixels.
\<close>

definition paint :: "(pixel \<Rightarrow> pixel \<Rightarrow> pixel) \<Rightarrow> bitmap \<Rightarrow> bitmap \<Rightarrow> bitmap" where
  "paint f src dst =
     dst\<lparr>data := map (\<lambda>i. let x = i mod width dst; y = i div width dst
                          in if x < width src \<and> y < height src
                             then f (px src (y * width src + x)) (px dst i)
                             else px dst i)
                    [0 ..< width dst * height dst]\<rparr>"

text \<open>\<open>ctx.drawImage(src, 0, 0)\<close> under the context's composite operation and global alpha.\<close>

definition drawImage :: "compositeOp \<Rightarrow> nat \<Rightarrow> bitmap \<Rightarrow> bitmap \<Rightarrow> bitmap" where
  "drawImage op g src dst = paint (blend op g) src dst"

text \<open>\<open>ctx.putImageData(d, 0, 0)\<close>: the pixels are copied, never blended.\<close>

definition putImageData :: "bitmap \<Rightarrow> bitmap \<Rightarrow> bitmap" where
  "putImageData d dst = paint (\<lambda>s _. s) d dst"

text \<open>\<open>ctx.clearRect(0, 0, w, h)\<close>.\<close>

definition clearRect :: "nat \<Rightarrow> nat \<Rightarrow> bitmap \<Rightarrow> bitmap" where
  "clearRect w h dst =
     dst\<lparr>data := map (\<lambda>i. if i mod width dst < w \<and> i div width dst < h
                          then transparent else px dst i)
                    [0 ..< width dst * height dst]\<rparr>"

text \<open>
  \<open>ctx.getImageData(0, 0, canvas.width, canvas.height)\<close>: a copy of the whole bitmap.
  The call throws \<open>IndexSizeError\<close> when the requested width or height is zero.
\<close>

datatype domException = IndexSizeError | TypeError

definition getImageData :: "bitmap \<Rightarrow> domException + bitmap" where
  "getImageData c =
     (if width c = 0 \<or> height c = 0 then Inl IndexSizeError
      else Inr \<lparr>width = width c, height = height c,
                data = map (px c) [0 ..< width c * height c]\<rparr>)"

section \<open>The workspace component (src/components/ImageWorkspace.tsx)\<close>

text \<open>
  Code that the component calls and that is not part of the component itself:
  \<^item> \<open>removeBackgroundSmart\<close> (utils/imageProcessing) rewrites the canvas it is given; the
    parameter gives the new pixel at each index from the canvas content, the width, the
    height, the tolerance and the smoothing;
  \<^item> \<open>resample\<close> is the browser's scaling of an image drawn into a rectangle of another
    size (\<open>drawImage(img, 0, 0, w, h)\<close>), again as the pixel at each index;
  \<^item> \<open>decodeImage\<close> is the loading of a data URL into an \<open>Image\<close>; \<open>None\<close> when the
    \<open>onload\<close> handler never fires.
\<close>

record env =
  removeBackgroundSmart :: "bitmap \<Rightarrow> nat \<Rightarrow> nat \<Rightarrow> nat \<Rightarrow> nat \<Rightarrow> nat \<Rightarrow> pixel"
  resample :: "bitmap \<Rightarrow> nat \<Rightarrow> nat \<Rightarrow> nat \<Rightarrow> pixel"
  decodeImage :: "string \<Rightarrow> bitmap option"

text \<open>
  \<open>WorkspaceProps\<close>. The three triggers are declared as numbers and compared with
  \<open>=== 0\<close>; a trigger that the parent does not pass is \<open>undefined\<close> when the effect
  reads it, and \<open>undefined === 0\<close> is false.
\<close>

datatype jsNumber = Undefined | Number int

record props =
  originalImage :: bitmap
  brushSize :: nat
  tolerance :: nat
  smoothing :: nat
  triggerAutoRemove :: jsNumber
  triggerUndo :: jsNumber
  triggerManualApply :: jsNumber
  manualMaskPreview :: bool
  processedImageOverride :: "string option"

text \<open>
  The mutable state behind the refs: \<open>baseLayerRef\<close>, \<open>maskLayerRef\<close>, \<open>historyRef\<close>, the
  bitmap of the display canvas, and the image last handed to \<open>onProcessedImageUpdate\<close>.
\<close>

record session =
  baseLayer :: "bitmap option"
  maskLayer :: "bitmap option"
  history :: "bitmap list"
  display :: bitmap
  processedImage :: "bitmap option"

text \<open>\<open>onProcessedImageUpdate(baseLayerRef.current.toDataURL('image/png'))\<close>.\<close>

definition onProcessedImageUpdate :: "bitmap \<Rightarrow> session \<Rightarrow> session" where
  "onProcessedImageUpdate b st = st\<lparr>processedImage := Some b\<rparr>"

text \<open>\<open>renderCanvas\<close>: \<open>True\<close> is the preview of the result, \<open>False\<close> shows the red mask.\<close>

definition renderCanvas :: "bool \<Rightarrow> session \<Rightarrow> session" where
  "renderCanvas preview st =
     (case baseLayer st of None \<Rightarrow> st | Some b \<Rightarrow>
      (case maskLayer st of None \<Rightarrow> st | Some m \<Rightarrow>
         let d0 = clearRect (width (display st)) (height (display st)) (display st);
             d1 = drawImage SourceOver 255 b d0;
             d2 = (if preview then drawImage DestinationOut 255 m d1
                   else drawImage SourceOver 153 m d1)
         in st\<lparr>display := d2\<rparr>))"

text \<open>The initialisation effect, run for every new \<open>originalImage\<close>.\<close>

definition initEffect :: "props \<Rightarrow> session \<Rightarrow> domException + session" where
  "initEffect p st =
     (let w = width (originalImage p); h = height (originalImage p);
          baseCanvas = drawImage SourceOver 255 (originalImage p) (createCanvas w h);
          maskCanvas = createCanvas w h
      in case getImageData baseCanvas of
           Inl e \<Rightarrow> Inl e
         | Inr snap \<Rightarrow>
             Inr (onProcessedImageUpdate baseCanvas
                   (renderCanvas (manualMaskPreview p)
                     (st\<lparr>baseLayer := Some baseCanvas, maskLayer := Some maskCanvas,
                         display := createCanvas w h, history := [snap]\<rparr>))))"

text \<open>\<open>drawImage(img, 0, 0, w, h)\<close>: the image scaled to \<open>w\<close> by \<open>h\<close>, as it is when it fits.\<close>

definition scaled :: "env \<Rightarrow> bitmap \<Rightarrow> nat \<Rightarrow> nat \<Rightarrow> bitmap" where
  "scaled e img w h =
     (if width img = w \<and> height img = h then img
      else \<lparr>width = w, height = h, data = map (resample e img w h) [0 ..< w * h]\<rparr>)"

text \<open>The \<open>onload\<close> handler of the AI override effect, and the effect that installs it.\<close>

definition aiOverrideOnload :: "env \<Rightarrow> props \<Rightarrow> bitmap \<Rightarrow> session \<Rightarrow> domException + session" where
  "aiOverrideOnload e p img st =
     (case baseLayer st of None \<Rightarrow> Inl TypeError | Some b \<Rightarrow>
        let w = width b; h = height b;
            b' = drawImage SourceOver 255 (scaled e img w h) (clearRect w h b);
            m' = map_option (clearRect w h) (maskLayer st)
        in (case getImageData b' of
              Inl ex \<Rightarrow> Inl ex
            | Inr snap \<Rightarrow>
                Inr (onProcessedImageUpdate b'
                      (renderCanvas (manualMaskPreview p)
                        (st\<lparr>baseLayer := Some b', maskLayer := m', history := [snap]\<rparr>)))))"

definition aiOverrideEffect :: "env \<Rightarrow> props \<Rightarrow> session \<Rightarrow> domException + session" where
  "aiOverrideEffect e p st =
     (case processedImageOverride p of None \<Rightarrow> Inr st | Some url \<Rightarrow>
        if url = [] \<or> baseLayer st = None then Inr st
        else (case decodeImage e url of None \<Rightarrow> Inr st
              | Some img \<Rightarrow> aiOverrideOnload e p img st))"

text \<open>The auto-remove effect.\<close>

definition autoRemoveEffect :: "env \<Rightarrow> props \<Rightarrow> session \<Rightarrow> domException + session" where
  "autoRemoveEffect e p st =
     (if triggerAutoRemove p = Number 0 then Inr st
      else case baseLayer st of None \<Rightarrow> Inr st | Some b \<Rightarrow>
        let w = width b; h = height b;
            fresh = drawImage SourceOver 255 (originalImage p) (clearRect w h b);
            b' = fresh\<lparr>data := map (removeBackgroundSmart e fresh w h (tolerance p) (smoothing p))
                                  [0 ..< w * h]\<rparr>;
            m' = map_option (clearRect w h) (maskLayer st)
        in (case getImageData b' of
              Inl ex \<Rightarrow> Inl ex
            | Inr snap \<Rightarrow>
                Inr (onProcessedImageUpdate b'
                      (renderCanvas (manualMaskPreview p)
                        (st\<lparr>baseLayer := Some b', maskLayer := m', history := [snap]\<rparr>)))))"

text \<open>The undo effect. Nothing in it can throw.\<close>

definition undoEffect :: "props \<Rightarrow> session \<Rightarrow> session" where
  "undoEffect p st =
     (if triggerUndo p = Number 0 then st
      else case baseLayer st of None \<Rightarrow> st | Some b \<Rightarrow>
        if length (history st) > 0 then
          (if length (history st) > 1 then
             let hist = butlast (history st);
                 prevState = last hist;
                 b' = putImageData prevState b
             in onProcessedImageUpdate b'
                  (renderCanvas (manualMaskPreview p)
                    (st\<lparr>history := hist, baseLayer := Some b'\<rparr>))
           else st)
        else st)"

text \<open>The manual-apply effect: \<open>push\<close>, then one \<open>shift\<close> when more than 20 are held.\<close>

definition pushHistory :: "bitmap \<Rightarrow> bitmap list \<Rightarrow> bitmap list" where
  "pushHistory snap hist =
     (let pushed = hist @ [snap] in if length pushed > 20 then tl pushed else pushed)"

definition manualApplyEffect :: "props \<Rightarrow> session \<Rightarrow> domException + session" where
  "manualApplyEffect p st =
     (if triggerManualApply p = Number 0 then Inr st
      else case baseLayer st of None \<Rightarrow> Inr st | Some b \<Rightarrow>
        (case maskLayer st of None \<Rightarrow> Inr st | Some m \<Rightarrow>
           let b' = drawImage DestinationOut 255 m b;
               m' = clearRect (width m) (height m) m
           in (case getImageData b' of
                 Inl ex \<Rightarrow> Inl ex
               | Inr snap \<Rightarrow>
                   Inr (onProcessedImageUpdate b'
                         (renderCanvas (manualMaskPreview p)
                           (st\<lparr>baseLayer := Some b', maskLayer := Some m',
                               history := pushHistory snap (history st)\<rparr>))))))"

text \<open>
  \<open>drawOnMask\<close>: a filled arc in pure red, drawn source-over on the mask. \<open>cov i\<close> is the
  coverage that the browser's rasteriser gives pixel \<open>i\<close> for the arc at the pointer
  position with the brush radius (255 inside, 0 outside, in between on the rim).
\<close>

definition fillRed :: "(nat \<Rightarrow> u8) \<Rightarrow> bitmap \<Rightarrow> bitmap" where
  "fillRed cov m =
     m\<lparr>data := map (\<lambda>i. sourceOver 255 \<lparr>red = 255, green = 0, blue = 0, alpha = cov i\<rparr> (px m i))
                   [0 ..< width m * height m]\<rparr>"

definition drawOnMask :: "(nat \<Rightarrow> u8) \<Rightarrow> props \<Rightarrow> session \<Rightarrow> session" where
  "drawOnMask cov p st =
     (case maskLayer st of None \<Rightarrow> st
      | Some m \<Rightarrow> renderCanvas (manualMaskPreview p) (st\<lparr>maskLayer := Some (fillRed cov m)\<rparr>))"

section \<open>Sessions as runs of the component\<close>

text \<open>
  What happens to a mounted workspace: the effects run (each with the props of the render
  that triggered it), the pointer paints on the mask, and the canvas is rendered again when
  the preview mode changes. A thrown exception ends the run.
\<close>

datatype event =
    Mount props
  | AiOverride props
  | AutoRemove props
  | Undo props
  | ManualApply props
  | Stroke "nat \<Rightarrow> u8" props
  | Rerender bool

fun step :: "env \<Rightarrow> event \<Rightarrow> session \<Rightarrow> domException + session" where
  "step e (Mount p) st = initEffect p st"
| "step e (AiOverride p) st = aiOverrideEffect e p st"
| "step e (AutoRemove p) st = autoRemoveEffect e p st"
| "step e (Undo p) st = Inr (undoEffect p st)"
| "step e (ManualApply p) st = manualApplyEffect p st"
| "step e (Stroke cov p) st = Inr (drawOnMask cov p st)"
| "step e (Rerender preview) st = Inr (renderCanvas preview st)"

fun run :: "env \<Rightarrow> event list \<Rightarrow> session \<Rightarrow> domException + session" where
  "run e [] st = Inr st"
| "run e (ev # evs) st = (case step e ev st of Inl ex \<Rightarrow> Inl ex | Inr st' \<Rightarrow> run e evs st')"

text \<open>
  The state of a loaded session: both layers exist, are non-empty bitmaps of one size, and
  the history is a non-empty list of at most 20 snapshots of that size whose last element
  is the base layer.
\<close>

definition sessionInv :: "session \<Rightarrow> bool" where
  "sessionInv st =
     (case baseLayer st of None \<Rightarrow> False | Some b \<Rightarrow>
      (case maskLayer st of None \<Rightarrow> False | Some m \<Rightarrow>
         wellFormed b \<and> wellFormed m \<and> sameSize m b \<and> 0 < width b \<and> 0 < height b \<and>
         history st \<noteq> [] \<and> length (history st) \<le> 20 \<and> last (history st) = b \<and>
         list_all (\<lambda>s. wellFormed s \<and> sameSize s b) (history st)))"

text \<open>What an effect left behind, read off its result; nothing after an exception.\<close>

definition baseOf :: "domException + session \<Rightarrow> bitmap option" where
  "baseOf r = (case r of Inl ex \<Rightarrow> None | Inr st \<Rightarrow> baseLayer st)"

definition maskOf :: "domException + session \<Rightarrow> bitmap option" where
  "maskOf r = (case r of Inl ex \<Rightarrow> None | Inr st \<Rightarrow> maskLayer st)"

definition historyOf :: "domException + session \<Rightarrow> bitmap list" where
  "historyOf r = (case r of Inl ex \<Rightarrow> [] | Inr st \<Rightarrow> history st)"

text \<open>Rounds of painting followed by one commit; the snapshots pushed are collected.\<close>

fun strokes :: "(nat \<Rightarrow> u8) list \<Rightarrow> props \<Rightarrow> session \<Rightarrow> session" where
  "strokes [] p st = st"
| "strokes (cov # covs) p st = strokes covs p (drawOnMask cov p st)"

fun commitRounds ::
  "props \<Rightarrow> (nat \<Rightarrow> u8) list list \<Rightarrow> session \<Rightarrow> domException + session \<times> bitmap list" where
  "commitRounds p [] st = Inr (st, [])"
| "commitRounds p (r # rs) st =
     (case manualApplyEffect p (strokes r p st) of
        Inl ex \<Rightarrow> Inl ex
      | Inr st1 \<Rightarrow>
          (case commitRounds p rs st1 of
             Inl ex \<Rightarrow> Inl ex
           | Inr (st2, snaps) \<Rightarrow> Inr (st2, last (history st1) # snaps)))"

section \<open>The AI collaborator (src/services/geminiService.ts) and its caller (src/App.tsx)\<close>

text \<open>The part of the \<open>generateContent\<close> response that the service reads.\<close>

datatype inlineData = InlineData "string option" "string option"
datatype part = Part "inlineData option"
datatype content = Content "part list option"
datatype candidate = Candidate "content option"
datatype response = Response "candidate list option"

datatype serviceError = ServiceError string

text \<open>\<open>response.candidates?.[0]?.content?.parts\<close>\<close>

fun responseParts :: "response \<Rightarrow> part list option" where
  "responseParts (Response None) = None"
| "responseParts (Response (Some [])) = None"
| "responseParts (Response (Some (Candidate None # _))) = None"
| "responseParts (Response (Some (Candidate (Some (Content ps)) # _))) = ps"

text \<open>The loop over the parts: the first part with a non-empty inline payload is returned.\<close>

fun hasPayload :: "part \<Rightarrow> bool" where
  "hasPayload (Part (Some (InlineData mt (Some d)))) = (d \<noteq> [])"
| "hasPayload _ = False"

fun dataUrl :: "string option \<Rightarrow> string \<Rightarrow> string" where
  "dataUrl mt d =
     ''data:'' @ (case mt of None \<Rightarrow> ''image/png'' | Some m \<Rightarrow> if m = [] then ''image/png'' else m)
       @ '';base64,'' @ d"

fun firstImage :: "part list \<Rightarrow> string option" where
  "firstImage [] = None"
| "firstImage (Part (Some (InlineData mt (Some d))) # ps) =
     (if d \<noteq> [] then Some (dataUrl mt d) else firstImage ps)"
| "firstImage (_ # ps) = firstImage ps"

text \<open>\<open>base64Image.replace(/^data:image\/(png|jpeg|jpg|webp);base64,/, '')\<close>\<close>

definition stripPrefix :: "string \<Rightarrow> string \<Rightarrow> string option" where
  "stripPrefix pre s = (if take (length pre) s = pre then Some (drop (length pre) s) else None)"

definition cleanBase64 :: "string \<Rightarrow> string" where
  "cleanBase64 s =
     (case stripPrefix ''data:image/png;base64,'' s of Some r \<Rightarrow> r | None \<Rightarrow>
      (case stripPrefix ''data:image/jpeg;base64,'' s of Some r \<Rightarrow> r | None \<Rightarrow>
       (case stripPrefix ''data:image/jpg;base64,'' s of Some r \<Rightarrow> r | None \<Rightarrow>
        (case stripPrefix ''data:image/webp;base64,'' s of Some r \<Rightarrow> r | None \<Rightarrow> s))))"

text \<open>
  \<open>removeBackgroundWithAi\<close>. The remote call is the parameter \<open>generateContent\<close>, from the
  image data sent to the response or the error thrown; the error is logged and thrown on.
\<close>

definition removeBackgroundWithAi ::
  "(string \<Rightarrow> serviceError + response) \<Rightarrow> string \<Rightarrow> serviceError + string option" where
  "removeBackgroundWithAi generateContent base64Image =
     (case generateContent (cleanBase64 base64Image) of
        Inl err \<Rightarrow> Inl err
      | Inr resp \<Rightarrow>
          (case responseParts resp of None \<Rightarrow> Inr None | Some ps \<Rightarrow> Inr (firstImage ps)))"

text \<open>
  The parts that the loop runs over (none when the optional chain is undefined), and the
  two ways the call fails: an error thrown, or \<open>null\<close> returned.
\<close>

definition partsOf :: "response \<Rightarrow> part list" where
  "partsOf resp = (case responseParts resp of None \<Rightarrow> [] | Some ps \<Rightarrow> ps)"

fun aiFailed :: "serviceError + string option \<Rightarrow> bool" where
  "aiFailed (Inl err) = True"
| "aiFailed (Inr None) = True"
| "aiFailed (Inr (Some aiResult)) = False"

text \<open>
  The state of \<open>App\<close> that \<open>handleAiRemove\<close> reads and writes and that the workspace is
  rendered from; \<open>appAlerts\<close> counts the calls of \<open>alert\<close>.
\<close>

record htmlImage =
  src :: string
  decoded :: bitmap

record app =
  appOriginalImage :: "htmlImage option"
  appIsProcessing :: bool
  appBrushSize :: nat
  appTolerance :: nat
  appSmoothing :: nat
  appTriggerAutoRemove :: int
  appProcessedImageOverride :: "string option"
  appAlerts :: nat

definition handleAiRemove :: "(string \<Rightarrow> serviceError + response) \<Rightarrow> app \<Rightarrow> app" where
  "handleAiRemove generateContent a =
     (case appOriginalImage a of None \<Rightarrow> a | Some img \<Rightarrow>
        (case removeBackgroundWithAi generateContent (src img) of
           Inl err \<Rightarrow> a\<lparr>appAlerts := Suc (appAlerts a), appIsProcessing := False\<rparr>
         | Inr None \<Rightarrow> a\<lparr>appIsProcessing := False\<rparr>
         | Inr (Some aiResult) \<Rightarrow>
             if aiResult \<noteq> [] then a\<lparr>appProcessedImageOverride := Some aiResult,
                                        appIsProcessing := False\<rparr>
             else a\<lparr>appIsProcessing := False\<rparr>))"

text \<open>
  The button press as the whole application sees it: \<open>handleAiRemove\<close> runs, the workspace
  is rendered with the new \<open>processedImageOverride\<close>, and the AI override effect runs when
  that prop has changed.
\<close>

definition aiRemove ::
  "env \<Rightarrow> (string \<Rightarrow> serviceError + response) \<Rightarrow> props \<Rightarrow> app \<times> session
     \<Rightarrow> domException + app \<times> session" where
  "aiRemove e generateContent p as =
     (let a' = handleAiRemove generateContent (fst as);
          p' = p\<lparr>processedImageOverride := appProcessedImageOverride a'\<rparr>
      in if appProcessedImageOverride a' = appProcessedImageOverride (fst as)
         then Inr (a', snd as)
         else (case aiOverrideEffect e p' (snd as) of
                 Inl ex \<Rightarrow> Inl ex
               | Inr st' \<Rightarrow> Inr (a', st')))"

text \<open>
  The props that \<open>App\<close> renders the workspace with (src/App.tsx, lines 174 to 182):
  \<open>originalImage\<close>, \<open>brushSize\<close>, \<open>tolerance\<close>, \<open>smoothing\<close>, \<open>triggerAutoRemove\<close> and
  \<open>processedImageOverride\<close>. It passes no \<open>triggerUndo\<close>, no \<open>triggerManualApply\<close> and no
  \<open>manualMaskPreview\<close>: the two triggers are \<open>undefined\<close> and the preview flag is falsy.
\<close>

definition workspaceProps :: "app \<Rightarrow> htmlImage \<Rightarrow> props" where
  "workspaceProps a img =
     \<lparr>originalImage = decoded img, brushSize = appBrushSize a, tolerance = appTolerance a,
      smoothing = appSmoothing a, triggerAutoRemove = Number (appTriggerAutoRemove a),
      triggerUndo = Undefined, triggerManualApply = Undefined,
      manualMaskPreview = False, processedImageOverride = appProcessedImageOverride a\<rparr>"

text \<open>
  Mounting the workspace runs every effect once, in the order of their declaration:
  initialisation, re-render, AI override, auto-remove, undo, manual apply.
\<close>

definition mountEffects :: "props \<Rightarrow> event list" where
  "mountEffects p =
     [Mount p, Rerender (manualMaskPreview p), AiOverride p, AutoRemove p, Undo p, ManualApply p]"

section \<open>Example inputs\<close>

text \<open>
  A one-pixel grey image with the default settings of \<open>App\<close>, a segmentation that halves
  the alpha of every pixel, the session after that image is loaded, and the same session
  after one commit.
\<close>

definition grey :: pixel where
  "grey = \<lparr>red = 10, green = 10, blue = 10, alpha = 255\<rparr>"

definition exImage :: bitmap where
  "exImage = \<lparr>width = 1, height = 1, data = [grey]\<rparr>"

definition white :: pixel where
  "white = \<lparr>red = 255, green = 255, blue = 255, alpha = 255\<rparr>"

definition exWide :: bitmap where
  "exWide = \<lparr>width = 2, height = 1, data = [white, grey]\<rparr>"

definition exEnv :: env where
  "exEnv = \<lparr>removeBackgroundSmart = (\<lambda>c w h tol sm i. (px c i)\<lparr>alpha := alpha (px c i) div 2\<rparr>),
            resample = (\<lambda>img w h i. px img 0),
            decodeImage = (\<lambda>url. if url = ''data:image/png;base64,AAAA'' then Some exWide else None)\<rparr>"

definition exProps :: "nat \<Rightarrow> props" where
  "exProps t = \<lparr>originalImage = exImage, brushSize = 30, tolerance = 15, smoothing = 0,
                triggerAutoRemove = Number (int t), triggerUndo = Number (int t),
                triggerManualApply = Number (int t),
                manualMaskPreview = False, processedImageOverride = None\<rparr>"

definition exPropsAi :: props where
  "exPropsAi = (exProps 0)\<lparr>processedImageOverride := Some ''data:image/png;base64,AAAA''\<rparr>"

definition exEmpty :: session where
  "exEmpty = \<lparr>baseLayer = None, maskLayer = None, history = [],
              display = createCanvas 1 1, processedImage = None\<rparr>"

definition exLoaded :: session where
  "exLoaded = \<lparr>baseLayer = Some exImage, maskLayer = Some (createCanvas 1 1),
               history = [exImage], display = exImage, processedImage = Some exImage\<rparr>"

definition exCommitted :: session where
  "exCommitted = \<lparr>baseLayer = Some exImage, maskLayer = Some (createCanvas 1 1),
                  history = [exImage, exImage], display = exImage,
                  processedImage = Some exImage\<rparr>"

text \<open>
  The loaded session after one stroke: \<open>exPainted\<close> where the brush covers the pixel
  fully, \<open>exHalf\<close> where the rim of the brush covers half of it.
\<close>

definition exPainted :: session where
  "exPainted = drawOnMask (\<lambda>i. 255) (exProps 0) exLoaded"

definition exHalf :: session where
  "exHalf = drawOnMask (\<lambda>i. 128) (exProps 0) exLoaded"

text \<open>Twenty-five rounds of one full stroke each.\<close>

definition exRounds :: "(nat \<Rightarrow> u8) list list" where
  "exRounds = replicate 25 [\<lambda>i. 255]"

text \<open>The session after the fully painted pixel is committed.\<close>

definition exErasedBase :: bitmap where
  "exErasedBase = \<lparr>width = 1, height = 1, data = [\<lparr>red = 10, green = 10, blue = 10, alpha = 0\<rparr>]\<rparr>"

definition exErased :: session where
  "exErased = \<lparr>baseLayer = Some exErasedBase, maskLayer = Some (createCanvas 1 1),
               history = [exImage, exErasedBase], display = createCanvas 1 1,
               processedImage = Some exErasedBase\<rparr>"

text \<open>
  The application in its initial state with the grey image loaded, a service that throws,
  and a service that answers with text only.
\<close>

definition exHtml :: htmlImage where
  "exHtml = \<lparr>src = ''data:image/png;base64,AAAA'', decoded = exImage\<rparr>"

definition exApp :: app where
  "exApp = \<lparr>appOriginalImage = Some exHtml, appIsProcessing = False, appBrushSize = 30,
            appTolerance = 15, appSmoothing = 0, appTriggerAutoRemove = 0,
            appProcessedImageOverride = None, appAlerts = 0\<rparr>"

definition exGenThrows :: "string \<Rightarrow> serviceError + response" where
  "exGenThrows s = Inl (ServiceError ''quota exceeded'')"

definition exTextResponse :: response where
  "exTextResponse = Response (Some [Candidate (Some (Content (Some [Part None])))])"

definition exGenText :: "string \<Rightarrow> serviceError + response" where
  "exGenText s = Inr exTextResponse"

text \<open>A service that answers with a text part and then an image part.\<close>

definition exImageResponse :: response where
  "exImageResponse =
     Response (Some [Candidate (Some (Content (Some
       [Part None, Part (Some (InlineData None (Some ''AAAA'')))])))])"

definition exGenImage :: "string \<Rightarrow> serviceError + response" where
  "exGenImage s = Inr exImageResponse"

section \<open>Arithmetic of the compositing operators\<close>

lemma unat_clamp8: "unat (clamp8 n) = min n 255"
proof -
  have "min n 255 < 2 ^ LENGTH(8)" by simp
  then show ?thesis unfolding clamp8_def by (simp only: unat_of_nat take_bit_nat_eq_self mod_less)
qed

lemma clamp8_unat: "clamp8 (unat (c::u8)) = c"
proof -
  have "unat c < 2 ^ LENGTH(8)" by (rule unsigned_less)
  then have "min (unat c) 255 = unat c" by simp
  then show ?thesis unfolding clamp8_def by simp
qed

lemma clamp8_zero: "clamp8 0 = 0"
  by (simp add: clamp8_def)

lemma rdiv_mult: "0 < d \<Longrightarrow> rdiv (n * d) d = n"
proof -
  assume d: "0 < d"
  have "2 * (n * d) + d = d + n * (2 * d)" by simp
  then have "rdiv (n * d) d = (d + n * (2 * d)) div (2 * d)" by (simp only: rdiv_def)
  also have "\<dots> = n" using d by (simp only: div_mult_self1) simp
  finally show ?thesis .
qed

lemma rdiv_zero: "rdiv 0 d = 0"
  unfolding rdiv_def by (cases "d = 0") simp_all

lemma rdiv_le: "0 < d \<Longrightarrow> n \<le> m * d \<Longrightarrow> rdiv n d \<le> m"
proof -
  assume d: "0 < d" and n: "n \<le> m * d"
  have "2 * n + d < (Suc m) * (2 * d)" using d n by simp
  then have "(2 * n + d) div (2 * d) < Suc m" using d by (simp add: div_less_iff_less_mult)
  then show ?thesis by (simp add: rdiv_def)
qed

lemma rdiv_eq_0_iff: "0 < d \<Longrightarrow> rdiv n d = 0 \<longleftrightarrow> 2 * n < d"
  by (auto simp: rdiv_def div_eq_0_iff)

lemma sourceOverChan_uncovered: "sourceOverChan 0 B cs cb = cb"
proof (cases "B = 0")
  case True then show ?thesis by (simp add: sourceOverChan_def)
next
  case False
  then have "rdiv (unat cb * (B * 65025)) (B * 65025) = unat cb" by (intro rdiv_mult) simp
  with False show ?thesis by (simp add: sourceOverChan_def clamp8_unat mult.assoc)
qed

lemma sourceOver_uncovered: "coverage g s = 0 \<Longrightarrow> sourceOver g s d = d"
proof -
  assume c: "coverage g s = 0"
  have "rdiv (unat (alpha d) * 65025) 65025 = unat (alpha d)" by (intro rdiv_mult) simp
  then show ?thesis using c by (simp add: sourceOver_def sourceOverChan_uncovered clamp8_unat)
qed

lemma destinationOut_uncovered: "coverage g s = 0 \<Longrightarrow> destinationOut g s d = d"
proof -
  assume c: "coverage g s = 0"
  have "rdiv (unat (alpha d) * 65025) 65025 = unat (alpha d)" by (intro rdiv_mult) simp
  then show ?thesis using c by (simp add: destinationOut_def clamp8_unat)
qed

lemma destinationOut_opaque: "alpha s = 255 \<Longrightarrow> alpha (destinationOut 255 s d) = 0"
  by (simp add: destinationOut_def coverage_def rdiv_zero clamp8_zero)

lemma destinationOut_le: "unat (alpha (destinationOut g s d)) \<le> unat (alpha d)"
proof -
  have "rdiv (unat (alpha d) * (65025 - coverage g s)) 65025 \<le> unat (alpha d)"
    by (rule rdiv_le) simp_all
  then show ?thesis by (simp add: destinationOut_def unat_clamp8)
qed

lemma coverage_zero_iff: "coverage 255 s = 0 \<longleftrightarrow> alpha s = 0"
  by (simp add: coverage_def unat_eq_0)

lemma coverage_153_zero_iff: "coverage 153 s = 0 \<longleftrightarrow> alpha s = 0"
  by (simp add: coverage_def unat_eq_0)

lemma alpha_sourceOver_transparent: "alpha (sourceOver 255 s transparent) = alpha s"
proof -
  have "rdiv (unat (alpha s) * 65025) 65025 = unat (alpha s)" by (intro rdiv_mult) simp
  then show ?thesis by (simp add: sourceOver_def Let_def coverage_def transparent_def clamp8_unat mult.assoc)
qed

lemma sourceOver_transparent:
  assumes "alpha s \<noteq> 0"
  shows "sourceOver 255 s transparent = s"
proof -
  from assms have pos: "0 < unat (alpha s) * 255 * 255" by (simp add: unat_gt_0)
  have chan: "sourceOverChan (unat (alpha s) * 255) 0 c 0 = c" for c
    using rdiv_mult [OF pos, of "unat c"] pos
    by (simp add: sourceOverChan_def clamp8_unat mult.assoc)
  have "rdiv (unat (alpha s) * 65025) 65025 = unat (alpha s)" by (intro rdiv_mult) simp
  then show ?thesis
    by (simp add: sourceOver_def Let_def coverage_def transparent_def chan clamp8_unat mult.assoc)
qed

lemma unat_u8_le: "unat (c::u8) \<le> 255"
proof -
  have "unat c < 2 ^ LENGTH(8)" by (rule unsigned_less)
  then show ?thesis by simp
qed

lemma destinationOut_alpha_zero_iff:
  "alpha (destinationOut 255 s d) = 0 \<longleftrightarrow> 2 * (unat (alpha d) * (255 - unat (alpha s))) < 255"
proof -
  have le: "unat (alpha s) \<le> 255" by (rule unat_u8_le)
  have "65025 - unat (alpha s) * 255 = (255 - unat (alpha s)) * 255"
    by (simp add: diff_mult_distrib)
  then have e: "unat (alpha d) * (65025 - coverage 255 s)
                  = (unat (alpha d) * (255 - unat (alpha s))) * 255"
    by (simp add: coverage_def)
  let ?n = "unat (alpha d) * (255 - unat (alpha s))"
  have r: "rdiv (?n * 255) 65025 \<le> 255"
  proof (rule rdiv_le)
    have "?n \<le> 255 * 255" by (intro mult_mono unat_u8_le) simp_all
    then show "?n * 255 \<le> 255 * 65025" by simp
  qed simp
  have "alpha (destinationOut 255 s d) = 0 \<longleftrightarrow> unat (alpha (destinationOut 255 s d)) = 0"
    by (simp add: unat_eq_0)
  also have "\<dots> \<longleftrightarrow> rdiv (?n * 255) 65025 = 0"
    using r by (simp add: destinationOut_def unat_clamp8 e min_def)
  also have "\<dots> \<longleftrightarrow> 2 * (?n * 255) < 65025" by (rule rdiv_eq_0_iff) simp
  also have "\<dots> \<longleftrightarrow> 2 * ?n < 255" by simp
  finally show ?thesis .
qed

lemma alpha_transparent: "alpha transparent = 0"
  by (simp add: transparent_def)

section \<open>Facts about the drawing calls\<close>

lemma width_paint: "width (paint f im dst) = width dst"
  and height_paint: "height (paint f im dst) = height dst"
  and wf_paint: "wellFormed (paint f im dst)"
  by (simp_all add: paint_def wellFormed_def)

lemma width_clearRect: "width (clearRect w h d) = width d"
  and height_clearRect: "height (clearRect w h d) = height d"
  and wf_clearRect: "wellFormed (clearRect w h d)"
  by (simp_all add: clearRect_def wellFormed_def)

lemma index_split:
  assumes "(i::nat) < w * h"
  shows "i mod w < w" and "i div w < h" and "i div w * w + i mod w = i"
proof -
  from assms have w: "0 < w" by (cases w) simp_all
  then show "i mod w < w" by simp
  from assms show "i div w < h" by (simp add: less_mult_imp_div_less mult.commute)
  show "i div w * w + i mod w = i" by simp
qed

lemma px_paint:
  assumes "sameSize im dst" and "i < width dst * height dst"
  shows "px (paint f im dst) i = f (px im i) (px dst i)"
proof -
  from assms(1) have s: "width im = width dst" "height im = height dst"
    by (simp_all add: sameSize_def)
  note ix = index_split [OF assms(2)]
  show ?thesis using assms(2) ix by (simp add: px_def paint_def s Let_def)
qed

lemma px_outside: "wellFormed b \<Longrightarrow> width b * height b \<le> i \<Longrightarrow> px b i = transparent"
  by (simp add: px_def wellFormed_def)

lemma px_clearRect_full: "px (clearRect (width d) (height d) d) i = transparent"
proof (cases "i < width d * height d")
  case True
  with index_split [OF True] show ?thesis by (simp add: px_def clearRect_def)
next
  case False
  then show ?thesis by (simp add: px_def clearRect_def)
qed

lemma bitmap_eqI:
  assumes "wellFormed a" "wellFormed b" "sameSize a b" "\<And>i. i < width a * height a \<Longrightarrow> px a i = px b i"
  shows "a = b"
proof -
  have "data a = data b"
  proof (rule nth_equalityI)
    show "length (data a) = length (data b)" using assms(1-3) by (simp add: wellFormed_def sameSize_def)
  next
    fix i assume "i < length (data a)"
    then show "data a ! i = data b ! i"
      using assms(4) [of i] assms(1-3) by (simp add: wellFormed_def sameSize_def px_def)
  qed
  then show ?thesis using assms(3) by (simp add: sameSize_def)
qed

lemma data_px: "wellFormed c \<Longrightarrow> map (px c) [0 ..< width c * height c] = data c"
  by (rule nth_equalityI) (simp_all add: wellFormed_def px_def)

lemma getImageData_wf:
  "wellFormed c \<Longrightarrow> 0 < width c \<Longrightarrow> 0 < height c \<Longrightarrow> getImageData c = Inr c"
  by (simp add: getImageData_def data_px)

lemma putImageData_same: 
  assumes "wellFormed d" "sameSize d dst"
  shows "putImageData d dst = d"
proof (rule bitmap_eqI)
  show "wellFormed (putImageData d dst)" by (simp add: putImageData_def wf_paint)
  show "wellFormed d" by fact
  show "sameSize (putImageData d dst) d" using assms(2) by (simp add: putImageData_def sameSize_def width_paint height_paint)
  fix i assume "i < width (putImageData d dst) * height (putImageData d dst)"
  then have "i < width dst * height dst" by (simp add: putImageData_def width_paint height_paint)
  then show "px (putImageData d dst) i = px d i"
    unfolding putImageData_def using assms(2) by (simp add: px_paint)
qed

lemma clearRect_full: "clearRect (width d) (height d) d = createCanvas (width d) (height d)"
proof (rule bitmap_eqI)
  show "wellFormed (clearRect (width d) (height d) d)" by (rule wf_clearRect)
  show "wellFormed (createCanvas (width d) (height d))" by (simp add: wellFormed_def createCanvas_def)
  show "sameSize (clearRect (width d) (height d) d) (createCanvas (width d) (height d))"
    by (simp add: sameSize_def width_clearRect height_clearRect createCanvas_def)
  fix i assume "i < width (clearRect (width d) (height d) d) * height (clearRect (width d) (height d) d)"
  then have "i < width d * height d" by (simp add: width_clearRect height_clearRect)
  then show "px (clearRect (width d) (height d) d) i = px (createCanvas (width d) (height d)) i"
    by (simp add: px_clearRect_full) (simp add: px_def createCanvas_def)
qed

section \<open>The invariant of a loaded session\<close>

lemma renderCanvas_fields:
  "baseLayer (renderCanvas pv st) = baseLayer st"
  "maskLayer (renderCanvas pv st) = maskLayer st"
  "history (renderCanvas pv st) = history st"
  "processedImage (renderCanvas pv st) = processedImage st"
  by (simp_all add: renderCanvas_def Let_def split: option.splits)

lemma onProcessedImageUpdate_fields:
  "baseLayer (onProcessedImageUpdate b st) = baseLayer st"
  "maskLayer (onProcessedImageUpdate b st) = maskLayer st"
  "history (onProcessedImageUpdate b st) = history st"
  "display (onProcessedImageUpdate b st) = display st"
  by (simp_all add: onProcessedImageUpdate_def)

lemma sessionInv_cong:
  "baseLayer st' = baseLayer st \<Longrightarrow> maskLayer st' = maskLayer st \<Longrightarrow> history st' = history st
     \<Longrightarrow> sessionInv st' = sessionInv st"
  by (simp add: sessionInv_def cong: option.case_cong)

lemma sessionInv_finish:
  "sessionInv (onProcessedImageUpdate b (renderCanvas pv st)) = sessionInv st"
  by (rule sessionInv_cong) (simp_all add: renderCanvas_fields onProcessedImageUpdate_fields)

lemma sessionInvI:
  assumes "baseLayer st = Some b" "maskLayer st = Some m" "wellFormed b" "wellFormed m"
    "sameSize m b" "0 < width b" "0 < height b" "history st \<noteq> []" "length (history st) \<le> 20"
    "last (history st) = b" "list_all (\<lambda>s. wellFormed s \<and> sameSize s b) (history st)"
  shows "sessionInv st"
  using assms by (simp add: sessionInv_def)

lemma sessionInvD:
  assumes "sessionInv st"
  obtains b m where "baseLayer st = Some b" "maskLayer st = Some m" "wellFormed b" "wellFormed m"
    "sameSize m b" "0 < width b" "0 < height b" "history st \<noteq> []" "length (history st) \<le> 20"
    "last (history st) = b" "list_all (\<lambda>s. wellFormed s \<and> sameSize s b) (history st)"
  using assms by (auto simp: sessionInv_def split: option.splits)

lemma getImageData_Inr:
  assumes "getImageData c = Inr snap" "wellFormed c"
  shows "snap = c" "0 < width c" "0 < height c"
  using assms by (auto simp: getImageData_def data_px split: if_splits)

lemma sameSize_refl: "sameSize a a"
  and sameSize_sym: "sameSize a b \<Longrightarrow> sameSize b a"
  and sameSize_trans: "sameSize a b \<Longrightarrow> sameSize b c \<Longrightarrow> sameSize a c"
  by (simp_all add: sameSize_def)

lemma sameSize_paint: "sameSize (paint f im dst) dst"
  and sameSize_clearRect: "sameSize (clearRect w h dst) dst"
  by (simp_all add: sameSize_def width_paint height_paint width_clearRect height_clearRect)

lemma wf_createCanvas: "wellFormed (createCanvas w h)"
  and width_createCanvas: "width (createCanvas w h) = w"
  and height_createCanvas: "height (createCanvas w h) = h"
  by (simp_all add: wellFormed_def createCanvas_def)

lemma initEffect_inv:
  assumes "initEffect p st = Inr st'"
  shows "sessionInv st'"
proof -
  define w h where "w = width (originalImage p)" and "h = height (originalImage p)"
  define baseCanvas where "baseCanvas = drawImage SourceOver 255 (originalImage p) (createCanvas w h)"
  have wfb: "wellFormed baseCanvas" by (simp add: baseCanvas_def drawImage_def wf_paint)
  have sz: "width baseCanvas = w" "height baseCanvas = h"
    by (simp_all add: baseCanvas_def drawImage_def width_paint height_paint createCanvas_def)
  from assms obtain snap where snap: "getImageData baseCanvas = Inr snap"
    and st': "st' = onProcessedImageUpdate baseCanvas (renderCanvas (manualMaskPreview p)
        (st\<lparr>baseLayer := Some baseCanvas, maskLayer := Some (createCanvas w h),
            display := createCanvas w h, history := [snap]\<rparr>))"
    by (auto simp: initEffect_def Let_def w_def h_def baseCanvas_def split: sum.splits)
  note g = getImageData_Inr [OF snap wfb]
  show ?thesis unfolding st' sessionInv_finish
    by (rule sessionInvI [where b = baseCanvas and m = "createCanvas w h"])
       (use g wfb sz in \<open>simp_all add: wf_createCanvas sameSize_def width_createCanvas height_createCanvas\<close>)
qed

lemma clearRect_sameSize:
  "sameSize m b \<Longrightarrow> clearRect (width b) (height b) m = createCanvas (width b) (height b)"
  using clearRect_full [of m] by (simp add: sameSize_def)

lemma aiOverrideOnload_result:
  fixes e :: env and img :: bitmap
  assumes "sessionInv st" and b: "baseLayer st = Some b"
  defines "b' \<equiv> drawImage SourceOver 255 (scaled e img (width b) (height b))
                   (createCanvas (width b) (height b))"
  shows "aiOverrideOnload e p img st =
           Inr (onProcessedImageUpdate b' (renderCanvas (manualMaskPreview p)
                 (st\<lparr>baseLayer := Some b', maskLayer := Some (createCanvas (width b) (height b)),
                     history := [b']\<rparr>)))"
proof -
  from assms(1) b obtain m where m: "maskLayer st = Some m" "sameSize m b"
    and pos: "0 < width b" "0 < height b"
    by (auto elim!: sessionInvD)
  have wfb': "wellFormed b'" and sz: "width b' = width b" "height b' = height b"
    by (simp_all add: b'_def drawImage_def wf_paint width_paint height_paint
          width_createCanvas height_createCanvas)
  have g: "getImageData b' = Inr b'" using wfb' sz pos by (simp add: getImageData_wf)
  show ?thesis
    using g b m by (simp add: aiOverrideOnload_def Let_def clearRect_full clearRect_sameSize b'_def)
qed

lemma sessionInv_fresh:
  assumes "wellFormed b'" "0 < width b'" "0 < height b'"
  shows "sessionInv (st\<lparr>baseLayer := Some b', maskLayer := Some (createCanvas (width b') (height b')),
                        history := [b']\<rparr>)"
  by (rule sessionInvI [where b = b' and m = "createCanvas (width b') (height b')"])
     (use assms in \<open>simp_all add: wf_createCanvas sameSize_def width_createCanvas height_createCanvas\<close>)

lemma aiOverrideOnload_inv:
  assumes "sessionInv st"
  shows "\<exists>st'. aiOverrideOnload e p img st = Inr st' \<and> sessionInv st'"
proof -
  from assms obtain b where b: "baseLayer st = Some b" and pos: "0 < width b" "0 < height b"
    by (auto elim!: sessionInvD)
  define b' where "b' = drawImage SourceOver 255 (scaled e img (width b) (height b))
                   (createCanvas (width b) (height b))"
  have wfb': "wellFormed b'" and sz: "width b' = width b" "height b' = height b"
    by (simp_all add: b'_def drawImage_def wf_paint width_paint height_paint
          width_createCanvas height_createCanvas)
  have "sessionInv (st\<lparr>baseLayer := Some b', maskLayer := Some (createCanvas (width b') (height b')),
                        history := [b']\<rparr>)"
    using wfb' sz pos by (intro sessionInv_fresh) simp_all
  then show ?thesis
    unfolding aiOverrideOnload_result [OF assms b] by (simp add: sessionInv_finish b'_def [symmetric] sz)
qed

lemma aiOverrideOnload_inv':
  assumes "sessionInv st" "aiOverrideOnload e p img st = Inr st'"
  shows "sessionInv st'"
  using aiOverrideOnload_inv [OF assms(1), of e p img] assms(2) by auto

lemma aiOverrideEffect_inv:
  assumes "sessionInv st" "aiOverrideEffect e p st = Inr st'"
  shows "sessionInv st'"
  using assms
  by (auto simp: aiOverrideEffect_def split: option.splits if_splits
           intro: aiOverrideOnload_inv')

lemma autoRemoveEffect_result:
  fixes e :: env and p :: props
  assumes "sessionInv st" and b: "baseLayer st = Some b" and t: "triggerAutoRemove p \<noteq> Number 0"
  defines "fresh \<equiv> drawImage SourceOver 255 (originalImage p) (createCanvas (width b) (height b))"
  defines "b' \<equiv> fresh\<lparr>data := map (removeBackgroundSmart e fresh (width b) (height b)
                                       (tolerance p) (smoothing p)) [0 ..< width b * height b]\<rparr>"
  shows "autoRemoveEffect e p st =
           Inr (onProcessedImageUpdate b' (renderCanvas (manualMaskPreview p)
                 (st\<lparr>baseLayer := Some b', maskLayer := Some (createCanvas (width b) (height b)),
                     history := [b']\<rparr>)))"
    and "wellFormed b'" and "width b' = width b" and "height b' = height b"
proof -
  from assms(1) b obtain m where m: "maskLayer st = Some m" "sameSize m b"
    and pos: "0 < width b" "0 < height b"
    by (auto elim!: sessionInvD)
  show wfb': "wellFormed b'" and sz: "width b' = width b" "height b' = height b"
    by (simp_all add: b'_def fresh_def drawImage_def wellFormed_def width_paint height_paint
          width_createCanvas height_createCanvas)
  have g: "getImageData b' = Inr b'" using wfb' sz pos by (simp add: getImageData_wf)
  show "autoRemoveEffect e p st =
           Inr (onProcessedImageUpdate b' (renderCanvas (manualMaskPreview p)
                 (st\<lparr>baseLayer := Some b', maskLayer := Some (createCanvas (width b) (height b)),
                     history := [b']\<rparr>)))"
    using g b m t
    by (simp add: autoRemoveEffect_def Let_def clearRect_full clearRect_sameSize b'_def fresh_def)
qed

lemma autoRemoveEffect_inv:
  assumes "sessionInv st" "autoRemoveEffect e p st = Inr st'"
  shows "sessionInv st'"
proof (cases "triggerAutoRemove p = Number 0")
  case True
  with assms show ?thesis by (simp add: autoRemoveEffect_def)
next
  case False
  from assms(1) obtain b where b: "baseLayer st = Some b" and pos: "0 < width b" "0 < height b"
    by (auto elim!: sessionInvD)
  note r = autoRemoveEffect_result [OF assms(1) b False, of e]
  have "sessionInv (st\<lparr>baseLayer := Some (the (baseLayer st')),
           maskLayer := Some (createCanvas (width (the (baseLayer st'))) (height (the (baseLayer st')))),
           history := [the (baseLayer st')]\<rparr>)"
    using r(2-4) pos assms(2) unfolding r(1)
    by (intro sessionInv_fresh)
       (auto simp: onProcessedImageUpdate_fields renderCanvas_fields)
  then show ?thesis
    using assms(2) r(3,4) unfolding r(1)
    by (auto simp: sessionInv_finish onProcessedImageUpdate_fields renderCanvas_fields)
qed

lemma list_all_sameSize:
  "list_all (\<lambda>s. wellFormed s \<and> sameSize s b) hs \<Longrightarrow> sameSize b b'
     \<Longrightarrow> list_all (\<lambda>s. wellFormed s \<and> sameSize s b') hs"
  by (induction hs) (auto intro: sameSize_trans)

lemma undoEffect_result:
  assumes "sessionInv st" and t: "triggerUndo p \<noteq> Number 0" and l: "1 < length (history st)"
  shows "undoEffect p st =
           onProcessedImageUpdate (last (butlast (history st)))
             (renderCanvas (manualMaskPreview p)
               (st\<lparr>history := butlast (history st),
                   baseLayer := Some (last (butlast (history st)))\<rparr>))"
proof -
  from assms(1) obtain b where b: "baseLayer st = Some b"
    and all: "list_all (\<lambda>s. wellFormed s \<and> sameSize s b) (history st)"
    by (auto elim!: sessionInvD)
  from l have ne: "history st \<noteq> []" by auto
  from l have "butlast (history st) \<noteq> []" by (cases "history st" rule: rev_cases) auto
  then have "last (butlast (history st)) \<in> set (history st)"
    by (meson in_set_butlastD last_in_set)
  with all have "wellFormed (last (butlast (history st)))" "sameSize (last (butlast (history st))) b"
    by (simp_all add: list_all_iff)
  then have pi: "putImageData (last (butlast (history st))) b = last (butlast (history st))"
    by (rule putImageData_same)
  have "undoEffect p st =
          (let hist = butlast (history st); prevState = last hist; b' = putImageData prevState b
           in onProcessedImageUpdate b'
                (renderCanvas (manualMaskPreview p) (st\<lparr>history := hist, baseLayer := Some b'\<rparr>)))"
    unfolding undoEffect_def using b t l ne by simp
  then show ?thesis unfolding Let_def pi .
qed

lemma undoEffect_noop:
  "length (history st) \<le> 1 \<Longrightarrow> undoEffect p st = st"
  by (simp add: undoEffect_def split: option.splits)

lemma undoEffect_inv:
  assumes "sessionInv st"
  shows "sessionInv (undoEffect p st)"
proof (cases "triggerUndo p \<noteq> Number 0 \<and> 1 < length (history st)")
  case False
  have "undoEffect p st = st"
  proof (cases "triggerUndo p = Number 0")
    case True
    then show ?thesis by (simp add: undoEffect_def)
  next
    case nz: False
    with False have "length (history st) \<le> 1" by simp
    then show ?thesis by (rule undoEffect_noop)
  qed
  then show ?thesis using assms by simp
next
  case True
  let ?prev = "last (butlast (history st))"
  from assms obtain b m where b: "baseLayer st = Some b" and m: "maskLayer st = Some m"
    "wellFormed m" "sameSize m b" and pos: "0 < width b" "0 < height b"
    and len: "length (history st) \<le> 20"
    and all: "list_all (\<lambda>s. wellFormed s \<and> sameSize s b) (history st)"
    by (auto elim!: sessionInvD)
  from True have ne: "butlast (history st) \<noteq> []" by (cases "history st" rule: rev_cases) auto
  then have "?prev \<in> set (history st)" by (meson in_set_butlastD last_in_set)
  with all have prev: "wellFormed ?prev" "sameSize ?prev b" by (simp_all add: list_all_iff)
  from all have "list_all (\<lambda>s. wellFormed s \<and> sameSize s b) (butlast (history st))"
    by (simp add: list_all_iff) (meson in_set_butlastD)
  then have all': "list_all (\<lambda>s. wellFormed s \<and> sameSize s ?prev) (butlast (history st))"
    by (rule list_all_sameSize [OF _ sameSize_sym [OF prev(2)]])
  have "sessionInv (st\<lparr>history := butlast (history st), baseLayer := Some ?prev\<rparr>)"
  proof (rule sessionInvI [where b = ?prev and m = m])
    show "sameSize m ?prev" using m(3) prev(2) by (simp add: sameSize_def)
    show "0 < width ?prev" "0 < height ?prev" using pos prev(2) by (simp_all add: sameSize_def)
    show "length (history (st\<lparr>history := butlast (history st), baseLayer := Some ?prev\<rparr>)) \<le> 20"
      using len by simp
  qed (use m prev ne all' in simp_all)
  then show ?thesis
    unfolding undoEffect_result [OF assms conjunct1 [OF True] conjunct2 [OF True]]
    by (simp only: sessionInv_finish)
qed

lemma pushHistory_props:
  assumes "length hist \<le> 20"
  shows "pushHistory snap hist = (if length hist < 20 then hist else tl hist) @ [snap]"
    and "length (pushHistory snap hist) \<le> 20"
    and "pushHistory snap hist \<noteq> []"
    and "last (pushHistory snap hist) = snap"
    and "set (pushHistory snap hist) \<subseteq> insert snap (set hist)"
proof -
  show eq: "pushHistory snap hist = (if length hist < 20 then hist else tl hist) @ [snap]"
    using assms by (cases hist) (auto simp: pushHistory_def Let_def)
  show "length (pushHistory snap hist) \<le> 20" unfolding eq using assms by auto
  show "pushHistory snap hist \<noteq> []" unfolding eq by simp
  show "last (pushHistory snap hist) = snap" unfolding eq by simp
  show "set (pushHistory snap hist) \<subseteq> insert snap (set hist)"
    unfolding eq by (auto dest: list.set_sel(2) [rotated])
qed

lemma manualApplyEffect_result:
  assumes "sessionInv st" and b: "baseLayer st = Some b" and m: "maskLayer st = Some m"
    and t: "triggerManualApply p \<noteq> Number 0"
  shows "manualApplyEffect p st =
           Inr (onProcessedImageUpdate (drawImage DestinationOut 255 m b)
                 (renderCanvas (manualMaskPreview p)
                   (st\<lparr>baseLayer := Some (drawImage DestinationOut 255 m b),
                       maskLayer := Some (createCanvas (width b) (height b)),
                       history := pushHistory (drawImage DestinationOut 255 m b) (history st)\<rparr>)))"
proof -
  from assms(1) b m have sz: "sameSize m b" and pos: "0 < width b" "0 < height b"
    by (auto elim!: sessionInvD)
  have g: "getImageData (drawImage DestinationOut 255 m b) = Inr (drawImage DestinationOut 255 m b)"
    using pos by (simp add: getImageData_wf drawImage_def wf_paint width_paint height_paint)
  from sz have "width m = width b" "height m = height b"
    by (simp_all add: sameSize_def)
  then have c: "clearRect (width m) (height m) m = createCanvas (width b) (height b)"
    using clearRect_full [of m] by metis
  show ?thesis using t unfolding manualApplyEffect_def Let_def by (simp add: b m c g)
qed

lemma manualApplyEffect_inv:
  assumes "sessionInv st" "manualApplyEffect p st = Inr st'"
  shows "sessionInv st'"
proof (cases "triggerManualApply p = Number 0")
  case True
  with assms show ?thesis by (simp add: manualApplyEffect_def)
next
  case False
  from assms(1) obtain b m where b: "baseLayer st = Some b" and m: "maskLayer st = Some m"
    and pos: "0 < width b" "0 < height b" and len: "length (history st) \<le> 20"
    and all: "list_all (\<lambda>s. wellFormed s \<and> sameSize s b) (history st)"
    by (auto elim!: sessionInvD)
  define b' where "b' = drawImage DestinationOut 255 m b"
  have wfb': "wellFormed b'" and sz: "sameSize b' b"
    by (simp_all add: b'_def drawImage_def wf_paint sameSize_paint)
  note ph = pushHistory_props [OF len, of b']
  from all have "list_all (\<lambda>s. wellFormed s \<and> sameSize s b') (history st)"
    by (rule list_all_sameSize [OF _ sameSize_sym [OF sz]])
  then have all': "list_all (\<lambda>s. wellFormed s \<and> sameSize s b') (pushHistory b' (history st))"
    using ph(5) wfb' by (auto simp: list_all_iff sameSize_refl)
  have "sessionInv (st\<lparr>baseLayer := Some b', maskLayer := Some (createCanvas (width b) (height b)),
                      history := pushHistory b' (history st)\<rparr>)"
    by (rule sessionInvI [where b = b' and m = "createCanvas (width b) (height b)"])
       (use wfb' sz pos ph all' in
         \<open>auto simp: wf_createCanvas sameSize_def width_createCanvas height_createCanvas\<close>)
  then show ?thesis
    using assms(2) unfolding manualApplyEffect_result [OF assms(1) b m False]
    by (auto simp: sessionInv_finish b'_def)
qed

lemma drawOnMask_fields:
  "baseLayer (drawOnMask cov p st) = baseLayer st"
  "history (drawOnMask cov p st) = history st"
  by (simp_all add: drawOnMask_def renderCanvas_fields split: option.splits)

lemma drawOnMask_inv:
  assumes "sessionInv st"
  shows "sessionInv (drawOnMask cov p st)"
proof -
  from assms obtain b m where b: "baseLayer st = Some b" and m: "maskLayer st = Some m"
    and rest: "wellFormed b" "sameSize m b" "0 < width b" "0 < height b" "history st \<noteq> []"
      "length (history st) \<le> 20" "last (history st) = b"
      "list_all (\<lambda>s. wellFormed s \<and> sameSize s b) (history st)"
    by (auto elim!: sessionInvD)
  have "sessionInv (st\<lparr>maskLayer := Some (fillRed cov m)\<rparr>)"
    by (rule sessionInvI [where b = b and m = "fillRed cov m"])
       (use b rest in \<open>auto simp: fillRed_def wellFormed_def sameSize_def\<close>)
  moreover have "sessionInv (drawOnMask cov p st) = sessionInv (st\<lparr>maskLayer := Some (fillRed cov m)\<rparr>)"
    using m by (intro sessionInv_cong) (simp_all add: drawOnMask_def renderCanvas_fields)
  ultimately show ?thesis by simp
qed

lemma renderCanvas_inv: "sessionInv st \<Longrightarrow> sessionInv (renderCanvas pv st)"
  using sessionInv_cong [of "renderCanvas pv st" st] by (simp add: renderCanvas_fields)

lemma step_inv:
  assumes "sessionInv st" "step e ev st = Inr st'"
  shows "sessionInv st'"
  using assms
  by (cases ev)
     (auto intro: initEffect_inv aiOverrideEffect_inv autoRemoveEffect_inv undoEffect_inv
        manualApplyEffect_inv drawOnMask_inv renderCanvas_inv)

lemma run_inv:
  assumes "sessionInv st" "run e evs st = Inr st'"
  shows "sessionInv st'"
  using assms
  by (induction evs arbitrary: st) (auto split: sum.splits intro: step_inv)

lemma run_mount_inv:
  assumes "run e (Mount p # evs) st0 = Inr st"
  shows "sessionInv st"
  using assms by (auto split: sum.splits intro: run_inv initEffect_inv)

lemma maskLayer_undoEffect: "maskLayer (undoEffect p st) = maskLayer st"
  by (simp add: undoEffect_def Let_def renderCanvas_fields onProcessedImageUpdate_fields
        split: option.splits)

section \<open>The pixels of the drawn layers\<close>

lemma px_createCanvas: "px (createCanvas w h) i = transparent"
  by (simp add: px_def createCanvas_def)

lemma px_drawImage:
  "sameSize im dst \<Longrightarrow> i < width dst * height dst
     \<Longrightarrow> px (drawImage op g im dst) i = blend op g (px im i) (px dst i)"
  by (simp add: drawImage_def px_paint)

lemma drawImage_transparent_out:
  assumes "wellFormed b"
  shows "drawImage DestinationOut 255 (createCanvas (width b) (height b)) b = b"
proof (rule bitmap_eqI)
  let ?b' = "drawImage DestinationOut 255 (createCanvas (width b) (height b)) b"
  show "wellFormed ?b'" by (simp add: drawImage_def wf_paint)
  show "wellFormed b" by fact
  show "sameSize ?b' b" by (simp add: drawImage_def sameSize_paint)
  fix i assume "i < width ?b' * height ?b'"
  then have i: "i < width b * height b" by (simp add: drawImage_def width_paint height_paint)
  have "sameSize (createCanvas (width b) (height b)) b"
    by (simp add: sameSize_def width_createCanvas height_createCanvas)
  then have "px ?b' i = destinationOut 255 transparent (px b i)"
    using i by (simp add: px_drawImage px_createCanvas)
  also have "\<dots> = px b i"
    by (rule destinationOut_uncovered) (simp add: coverage_def transparent_def)
  finally show "px ?b' i = px b i" .
qed

lemma sameSize_drawImage: "sameSize (drawImage op g im dst) dst"
  by (simp add: drawImage_def sameSize_paint)

lemma px_base_drawn:
  assumes "sameSize b d" and "i < width d * height d"
  shows "px (drawImage SourceOver 255 b (clearRect (width d) (height d) d)) i
           = sourceOver 255 (px b i) transparent"
proof -
  have c: "sameSize (clearRect (width d) (height d) d) d" by (rule sameSize_clearRect)
  have "sameSize b (clearRect (width d) (height d) d)"
    by (rule sameSize_trans [OF assms(1) sameSize_sym [OF c]])
  moreover have "i < width (clearRect (width d) (height d) d) * height (clearRect (width d) (height d) d)"
    using assms(2) by (simp only: width_clearRect height_clearRect)
  ultimately have "px (drawImage SourceOver 255 b (clearRect (width d) (height d) d)) i
      = blend SourceOver 255 (px b i) (px (clearRect (width d) (height d) d) i)"
    by (rule px_drawImage)
  then show ?thesis by (simp only: px_clearRect_full blend.simps)
qed

lemma px_mask_drawn:
  assumes "sameSize b d" and "sameSize m d" and "i < width d * height d"
  shows "px (drawImage op g m (drawImage SourceOver 255 b (clearRect (width d) (height d) d))) i
           = blend op g (px m i) (sourceOver 255 (px b i) transparent)"
proof -
  let ?d1 = "drawImage SourceOver 255 b (clearRect (width d) (height d) d)"
  have s1: "sameSize ?d1 d"
    by (rule sameSize_trans [OF sameSize_drawImage sameSize_clearRect])
  have "sameSize m ?d1" by (rule sameSize_trans [OF assms(2) sameSize_sym [OF s1]])
  moreover have "i < width ?d1 * height ?d1"
    using assms(3) s1 by (simp add: sameSize_def)
  ultimately have "px (drawImage op g m ?d1) i = blend op g (px m i) (px ?d1 i)"
    by (rule px_drawImage)
  then show ?thesis by (simp only: px_base_drawn [OF assms(1,3)])
qed

lemma renderCanvas_display:
  assumes b: "baseLayer st = Some b" and m: "maskLayer st = Some m"
    and sb: "sameSize b (display st)" and sm: "sameSize m (display st)"
    and i: "i < width (display st) * height (display st)"
  shows "px (display (renderCanvas True st)) i
           = destinationOut 255 (px m i) (sourceOver 255 (px b i) transparent)"
    and "px (display (renderCanvas False st)) i
           = sourceOver 153 (px m i) (sourceOver 255 (px b i) transparent)"
proof -
  have "display (renderCanvas True st)
          = drawImage DestinationOut 255 m
              (drawImage SourceOver 255 b
                (clearRect (width (display st)) (height (display st)) (display st)))"
    unfolding renderCanvas_def Let_def b m by simp
  then show "px (display (renderCanvas True st)) i
           = destinationOut 255 (px m i) (sourceOver 255 (px b i) transparent)"
    by (simp only: px_mask_drawn [OF sb sm i] blend.simps)
  have "display (renderCanvas False st)
          = drawImage SourceOver 153 m
              (drawImage SourceOver 255 b
                (clearRect (width (display st)) (height (display st)) (display st)))"
    unfolding renderCanvas_def Let_def b m by simp
  then show "px (display (renderCanvas False st)) i
           = sourceOver 153 (px m i) (sourceOver 255 (px b i) transparent)"
    by (simp only: px_mask_drawn [OF sb sm i] blend.simps)
qed

section \<open>The history over rounds of commits\<close>

lemma strokes_inv:
  "sessionInv st \<Longrightarrow> sessionInv (strokes covs p st)"
  by (induction covs arbitrary: st) (simp_all add: drawOnMask_inv)

lemma strokes_fields:
  "baseLayer (strokes covs p st) = baseLayer st" "history (strokes covs p st) = history st"
  by (induction covs arbitrary: st) (simp_all add: drawOnMask_fields)

lemma pushHistory_drop:
  assumes "length hist \<le> 20"
  shows "pushHistory snap hist = drop (length (hist @ [snap]) - 20) (hist @ [snap])"
proof (cases "length hist < 20")
  case True
  then show ?thesis by (simp add: pushHistory_def Let_def)
next
  case False
  with assms have l: "length hist = 20" by simp
  then obtain x xs where "hist = x # xs" by (cases hist) auto
  with l show ?thesis by (simp add: pushHistory_def Let_def)
qed

lemma drop_last_append:
  "drop (length (drop (length xs - n) xs @ ys) - n) (drop (length xs - n) xs @ ys)
     = drop (length (xs @ ys) - n) (xs @ ys)"
proof (cases "length xs \<le> n")
  case True
  then show ?thesis by simp
next
  case False
  then have "length (drop (length xs - n) xs) = n" by simp
  then show ?thesis using False by (simp add: add.commute)
qed

lemma manualApplyEffect_history:
  assumes "sessionInv st" and "triggerManualApply p \<noteq> Number 0"
  shows "\<exists>st'. manualApplyEffect p st = Inr st' \<and> sessionInv st' \<and>
           baseLayer st' = Some (last (history st')) \<and>
           history st' = pushHistory (last (history st')) (history st)"
proof -
  from assms(1) obtain b m where bm: "baseLayer st = Some b" "maskLayer st = Some m"
    and len: "length (history st) \<le> 20"
    by (auto elim!: sessionInvD)
  note r = manualApplyEffect_result [OF assms(1) bm assms(2)]
  let ?b' = "drawImage DestinationOut 255 m b"
  have "last (pushHistory ?b' (history st)) = ?b'" by (rule pushHistory_props(4) [OF len])
  moreover from r have "sessionInv (onProcessedImageUpdate ?b' (renderCanvas (manualMaskPreview p)
                   (st\<lparr>baseLayer := Some ?b', maskLayer := Some (createCanvas (width b) (height b)),
                       history := pushHistory ?b' (history st)\<rparr>)))"
    by (rule manualApplyEffect_inv [OF assms(1)])
  ultimately show ?thesis
    unfolding r by (simp add: onProcessedImageUpdate_fields renderCanvas_fields)
qed

lemma commitRounds_history:
  assumes "sessionInv st" and "triggerManualApply p \<noteq> Number 0"
  shows "\<exists>st' snaps. commitRounds p rs st = Inr (st', snaps) \<and> sessionInv st' \<and>
           length snaps = length rs \<and>
           history st' = drop (length (history st @ snaps) - 20) (history st @ snaps)"
  using assms(1)
proof (induction rs arbitrary: st)
  case Nil
  then have "length (history st) \<le> 20" by (auto elim!: sessionInvD)
  with Nil show ?case by simp
next
  case (Cons r rs)
  let ?s = "strokes r p st"
  have inv: "sessionInv ?s" by (rule strokes_inv [OF Cons.prems])
  from Cons.prems have len: "length (history st) \<le> 20" by (auto elim!: sessionInvD)
  from manualApplyEffect_history [OF inv assms(2)]
  obtain st1 where 1: "manualApplyEffect p ?s = Inr st1" "sessionInv st1"
    "history st1 = pushHistory (last (history st1)) (history st)"
    by (auto simp: strokes_fields)
  from Cons.IH [OF 1(2)]
  obtain st2 snaps where 2: "commitRounds p rs st1 = Inr (st2, snaps)" "sessionInv st2"
    "length snaps = length rs"
    "history st2 = drop (length (history st1 @ snaps) - 20) (history st1 @ snaps)"
    by blast
  let ?b = "last (history st1)"
  have h1: "history st1 = drop (length (history st @ [?b]) - 20) (history st @ [?b])"
    using 1(3) pushHistory_drop [OF len, of ?b] by simp
  have "history st2 = drop (length ((history st @ [?b]) @ snaps) - 20) ((history st @ [?b]) @ snaps)"
    unfolding 2(4) by (subst h1, subst (2) h1) (rule drop_last_append)
  then have "history st2 = drop (length (history st @ ?b # snaps) - 20) (history st @ ?b # snaps)"
    by simp
  moreover have "commitRounds p (r # rs) st = Inr (st2, ?b # snaps)"
    using 1(1) 2(1) by simp
  ultimately show ?case using 2(2,3) by simp
qed

section \<open>The AI call and its failures\<close>

lemma firstImage_None_iff: "firstImage ps = None \<longleftrightarrow> \<not> list_ex hasPayload ps"
  by (induction ps rule: firstImage.induct) auto

lemma firstImage_nonempty: "firstImage ps = Some url \<Longrightarrow> url \<noteq> []"
  by (induction ps rule: firstImage.induct) (auto split: if_splits)

lemma removeBackgroundWithAi_cases:
  "removeBackgroundWithAi gen s =
     (case gen (cleanBase64 s) of Inl err \<Rightarrow> Inl err | Inr resp \<Rightarrow> Inr (firstImage (partsOf resp)))"
  by (simp add: removeBackgroundWithAi_def partsOf_def split: sum.splits option.splits)

lemma handleAiRemove_failed:
  assumes "appOriginalImage a = Some img" and "aiFailed (removeBackgroundWithAi gen (src img))"
  shows "appProcessedImageOverride (handleAiRemove gen a) = appProcessedImageOverride a"
proof (cases "removeBackgroundWithAi gen (src img)")
  case (Inl err)
  with assms(1) show ?thesis by (simp add: handleAiRemove_def)
next
  case (Inr r)
  with assms(2) have "r = None" by (cases r) simp_all
  with Inr assms(1) show ?thesis by (simp add: handleAiRemove_def)
qed

section \<open>Evaluating the examples\<close>

lemmas ex_defs = grey_def white_def exImage_def exWide_def exEnv_def exProps_def exEmpty_def exLoaded_def exCommitted_def
  exErasedBase_def exErased_def

lemmas px_defs = transparent_def clamp8_def rdiv_def coverage_def sourceOverChan_def sourceOver_def destinationOut_def

lemmas bm_defs = wellFormed_def sameSize_def px_def createCanvas_def paint_def drawImage_def putImageData_def clearRect_def getImageData_def

lemmas ws_defs = onProcessedImageUpdate_def renderCanvas_def initEffect_def scaled_def aiOverrideOnload_def aiOverrideEffect_def
  autoRemoveEffect_def undoEffect_def pushHistory_def manualApplyEffect_def fillRed_def drawOnMask_def sessionInv_def

lemmas eval_simps = ex_defs px_defs bm_defs ws_defs Let_def upt_rec

lemma exLoaded_mounted: "initEffect (exProps 0) exEmpty = Inr exLoaded"
  by (simp add: eval_simps)

lemma exCommitted_applied: "manualApplyEffect (exProps 1) exLoaded = Inr exCommitted"
  by (simp add: eval_simps)

lemma exLoaded_inv: "sessionInv exLoaded"
  and exCommitted_inv: "sessionInv exCommitted"
  by (simp_all add: eval_simps)

lemma exLoaded_fields:
  "baseLayer exLoaded = Some exImage" "maskLayer exLoaded = Some (createCanvas 1 1)"
  "history exLoaded = [exImage]" "display exLoaded = exImage"
  by (simp_all add: exLoaded_def)

lemma exImage_fields: "width exImage = 1" "height exImage = 1" "px exImage 0 = grey"
  by (simp_all add: exImage_def px_def)

lemma exStroke:
  assumes "cov 0 \<noteq> 0"
  shows "sessionInv (drawOnMask cov (exProps 0) exLoaded)"
  "baseLayer (drawOnMask cov (exProps 0) exLoaded) = Some exImage"
  "history (drawOnMask cov (exProps 0) exLoaded) = [exImage]"
  "maskLayer (drawOnMask cov (exProps 0) exLoaded)
     = Some \<lparr>width = 1, height = 1, data = [\<lparr>red = 255, green = 0, blue = 0, alpha = cov 0\<rparr>]\<rparr>"
  "sameSize (display (drawOnMask cov (exProps 0) exLoaded)) exImage"
proof -
  show "sessionInv (drawOnMask cov (exProps 0) exLoaded)"
    by (rule drawOnMask_inv [OF exLoaded_inv])
  show "baseLayer (drawOnMask cov (exProps 0) exLoaded) = Some exImage"
    "history (drawOnMask cov (exProps 0) exLoaded) = [exImage]"
    by (simp_all add: drawOnMask_fields exLoaded_fields)
  have "sourceOver 255 \<lparr>red = 255, green = 0, blue = 0, alpha = cov 0\<rparr> transparent
          = \<lparr>red = 255, green = 0, blue = 0, alpha = cov 0\<rparr>"
    using assms by (intro sourceOver_transparent) simp
  then show "maskLayer (drawOnMask cov (exProps 0) exLoaded)
     = Some \<lparr>width = 1, height = 1, data = [\<lparr>red = 255, green = 0, blue = 0, alpha = cov 0\<rparr>]\<rparr>"
    by (simp add: drawOnMask_def exLoaded_fields renderCanvas_fields fillRed_def
          createCanvas_def px_def)
  show "sameSize (display (drawOnMask cov (exProps 0) exLoaded)) exImage"
    by (simp add: drawOnMask_def exLoaded_def renderCanvas_def Let_def drawImage_def sameSize_def
          width_paint height_paint width_clearRect height_clearRect)
qed

lemma exDraw:
  "drawImage op g \<lparr>width = Suc 0, height = Suc 0, data = [s]\<rparr>
       \<lparr>width = Suc 0, height = Suc 0, data = [d]\<rparr>
     = \<lparr>width = Suc 0, height = Suc 0, data = [blend op g s d]\<rparr>"
  by (simp add: drawImage_def paint_def px_def)

lemma exPx: "px \<lparr>width = w, height = h, data = [s]\<rparr> 0 = s"
  by (simp add: px_def)

lemma exPainted_fields:
  "sessionInv exPainted" "baseLayer exPainted = Some exImage" "history exPainted = [exImage]"
  "maskLayer exPainted
     = Some \<lparr>width = 1, height = 1, data = [\<lparr>red = 255, green = 0, blue = 0, alpha = 255\<rparr>]\<rparr>"
  unfolding exPainted_def by (simp_all add: exStroke)

lemma exHalf_fields:
  "sessionInv exHalf" "baseLayer exHalf = Some exImage" "history exHalf = [exImage]"
  "maskLayer exHalf
     = Some \<lparr>width = 1, height = 1, data = [\<lparr>red = 255, green = 0, blue = 0, alpha = 128\<rparr>]\<rparr>"
  unfolding exHalf_def by (simp_all add: exStroke)

lemma exProps_triggers:
  "triggerAutoRemove (exProps t) = Number (int t)" "triggerUndo (exProps t) = Number (int t)"
  "triggerManualApply (exProps t) = Number (int t)"
  by (simp_all add: exProps_def)

lemma exErased_fields:
  "sessionInv exErased" "baseLayer exErased = Some exErasedBase"
  "history exErased = [exImage, exErasedBase]" "maskLayer exErased = Some (createCanvas 1 1)"
  by (simp_all add: eval_simps)

lemma exErased_committed: "manualApplyEffect (exProps 1) exPainted = Inr exErased"
proof -
  have t: "triggerManualApply (exProps 1) \<noteq> Number 0" by (simp add: exProps_triggers)
  have d: "destinationOut 255 \<lparr>red = 255, green = 0, blue = 0, alpha = 255\<rparr> grey
          = \<lparr>red = 10, green = 10, blue = 10, alpha = 0\<rparr>"
    by (simp add: destinationOut_def coverage_def grey_def rdiv_def clamp8_def)
  have b: "drawImage DestinationOut 255
             \<lparr>width = 1, height = 1, data = [\<lparr>red = 255, green = 0, blue = 0, alpha = 255\<rparr>]\<rparr>
             exImage = exErasedBase"
    by (simp add: exImage_def exErasedBase_def exDraw d)
  have disp: "display exPainted = \<lparr>width = 1, height = 1, data = [\<lparr>red = 157, green = 4, blue = 4, alpha = 255\<rparr>]\<rparr>"
    unfolding exPainted_def by (simp add: eval_simps)
  have pi: "processedImage exPainted = Some exImage"
    unfolding exPainted_def
    by (simp add: drawOnMask_def exLoaded_def renderCanvas_fields)
  have r: "renderCanvas False
      \<lparr>baseLayer = Some exErasedBase, maskLayer = Some (createCanvas 1 1),
        history = [exImage, exErasedBase],
        display = \<lparr>width = 1, height = 1, data = [\<lparr>red = 157, green = 4, blue = 4, alpha = 255\<rparr>]\<rparr>,
        processedImage = Some exImage\<rparr>
     = \<lparr>baseLayer = Some exErasedBase, maskLayer = Some (createCanvas 1 1),
        history = [exImage, exErasedBase],
        display = createCanvas 1 1, processedImage = Some exImage\<rparr>"
    by (simp add: eval_simps)
  have s: "exPainted = \<lparr>baseLayer = Some exImage,
      maskLayer = Some \<lparr>width = 1, height = 1, data = [\<lparr>red = 255, green = 0, blue = 0, alpha = 255\<rparr>]\<rparr>,
      history = [exImage],
      display = \<lparr>width = 1, height = 1, data = [\<lparr>red = 157, green = 4, blue = 4, alpha = 255\<rparr>]\<rparr>,
      processedImage = Some exImage\<rparr>"
    using exPainted_fields(2-4) disp pi by (cases exPainted) simp
  show ?thesis
    unfolding manualApplyEffect_result [OF exPainted_fields(1,2,4) t] b
    unfolding s
    by (simp add: exImage_fields pushHistory_def exProps_def r onProcessedImageUpdate_def exErased_def
          del: One_nat_def)
qed

lemma exFresh:
  "drawImage SourceOver 255 exImage (createCanvas 1 1) = exImage"
proof -
  have "sourceOver 255 grey transparent = grey"
    by (rule sourceOver_transparent) (simp add: grey_def)
  then show ?thesis by (simp add: exImage_def createCanvas_def exDraw)
qed

lemma exSegmented:
  "exImage\<lparr>data := map (removeBackgroundSmart exEnv exImage 1 1 15 0) [0 ..< 1 * 1]\<rparr>
     = \<lparr>width = 1, height = 1, data = [\<lparr>red = 10, green = 10, blue = 10, alpha = 127\<rparr>]\<rparr>"
  by (simp add: exEnv_def exImage_def px_def grey_def)

lemma exProps_fields:
  "originalImage (exProps t) = exImage" "tolerance (exProps t) = 15" "smoothing (exProps t) = 0"
  "processedImageOverride (exProps t) = None"
  by (simp_all add: exProps_def)

lemma exPropsAi_fields:
  "processedImageOverride exPropsAi = Some ''data:image/png;base64,AAAA''"
  "decodeImage exEnv ''data:image/png;base64,AAAA'' = Some exWide"
  by (simp_all add: exPropsAi_def exEnv_def)

lemma exScaled:
  "drawImage SourceOver 255 (scaled exEnv exWide 1 1) (createCanvas 1 1)
     = \<lparr>width = 1, height = 1, data = [white]\<rparr>"
proof -
  have "sourceOver 255 white transparent = white"
    by (rule sourceOver_transparent) (simp add: white_def)
  moreover have "scaled exEnv exWide 1 1 = \<lparr>width = 1, height = 1, data = [white]\<rparr>"
    by (simp add: scaled_def exWide_def exEnv_def px_def)
  ultimately show ?thesis by (simp add: createCanvas_def exDraw)
qed

lemma exCommitted_fields:
  "baseLayer exCommitted = Some exImage" "history exCommitted = [exImage, exImage]"
  by (simp_all add: exCommitted_def)

lemma exDisplay:
  "sameSize exImage (display exLoaded)"
  "sameSize (createCanvas 1 1) (display exLoaded)"
  "sameSize exImage (display exPainted)"
  "sameSize \<lparr>width = 1, height = 1, data = [\<lparr>red = 255, green = 0, blue = 0, alpha = 255\<rparr>]\<rparr>
     (display exPainted)"
  "sameSize exImage (display exHalf)"
  "sameSize \<lparr>width = 1, height = 1, data = [\<lparr>red = 255, green = 0, blue = 0, alpha = 128\<rparr>]\<rparr>
     (display exHalf)"
  "0 < width (display exLoaded) * height (display exLoaded)"
  "0 < width (display exPainted) * height (display exPainted)"
  "0 < width (display exHalf) * height (display exHalf)"
proof -
  have p: "sameSize (display exPainted) exImage" and h: "sameSize (display exHalf) exImage"
    unfolding exPainted_def exHalf_def by (simp_all add: exStroke(5))
  show "sameSize exImage (display exLoaded)" "sameSize (createCanvas 1 1) (display exLoaded)"
    "0 < width (display exLoaded) * height (display exLoaded)"
    by (simp_all add: exLoaded_def sameSize_def exImage_def createCanvas_def)
  from p show "sameSize exImage (display exPainted)"
    "sameSize \<lparr>width = 1, height = 1, data = [\<lparr>red = 255, green = 0, blue = 0, alpha = 255\<rparr>]\<rparr>
       (display exPainted)"
    "0 < width (display exPainted) * height (display exPainted)"
    by (simp_all add: sameSize_def exImage_def)
  from h show "sameSize exImage (display exHalf)"
    "sameSize \<lparr>width = 1, height = 1, data = [\<lparr>red = 255, green = 0, blue = 0, alpha = 128\<rparr>]\<rparr>
       (display exHalf)"
    "0 < width (display exHalf) * height (display exHalf)"
    by (simp_all add: sameSize_def exImage_def)
qed

lemma exBlend:
  "sourceOver 255 grey transparent = grey"
  "destinationOut 255 \<lparr>red = 255, green = 0, blue = 0, alpha = 128\<rparr> grey
     = \<lparr>red = 10, green = 10, blue = 10, alpha = 127\<rparr>"
  "sourceOver 153 \<lparr>red = 255, green = 0, blue = 0, alpha = 255\<rparr> grey
     = \<lparr>red = 157, green = 4, blue = 4, alpha = 255\<rparr>"
  "sourceOver 153 transparent grey = grey"
proof -
  show "sourceOver 255 grey transparent = grey"
    by (rule sourceOver_transparent) (simp add: grey_def)
  show "destinationOut 255 \<lparr>red = 255, green = 0, blue = 0, alpha = 128\<rparr> grey
     = \<lparr>red = 10, green = 10, blue = 10, alpha = 127\<rparr>"
    by (simp add: destinationOut_def coverage_def grey_def rdiv_def clamp8_def)
  show "sourceOver 153 \<lparr>red = 255, green = 0, blue = 0, alpha = 255\<rparr> grey
     = \<lparr>red = 157, green = 4, blue = 4, alpha = 255\<rparr>"
    by (simp add: sourceOver_def sourceOverChan_def coverage_def grey_def rdiv_def clamp8_def Let_def)
  show "sourceOver 153 transparent grey = grey"
    by (rule sourceOver_uncovered) (simp add: coverage_def transparent_def)
qed

lemma exApp_fields:
  "appOriginalImage exApp = Some exHtml" "src exHtml = ''data:image/png;base64,AAAA''"
  "decoded exHtml = exImage"
  by (simp_all add: exApp_def exHtml_def)

lemma exGen_results:
  "removeBackgroundWithAi exGenThrows (src exHtml) = Inl (ServiceError ''quota exceeded'')"
  "removeBackgroundWithAi exGenText (src exHtml) = Inr None"
  "removeBackgroundWithAi exGenImage (src exHtml) = Inr (Some ''data:image/png;base64,AAAA'')"
  by (simp_all add: removeBackgroundWithAi_def exGenThrows_def exGenText_def exGenImage_def
        exTextResponse_def exImageResponse_def)

lemma exGen_calls:
  "exGenThrows (cleanBase64 (src exHtml)) = Inl (ServiceError ''quota exceeded'')"
  "exGenText (cleanBase64 (src exHtml)) = Inr exTextResponse"
  "exGenImage (cleanBase64 (src exHtml)) = Inr exImageResponse"
  "\<not> list_ex hasPayload (partsOf exTextResponse)"
  "list_ex hasPayload (partsOf exImageResponse)"
  by (simp_all add: exGenThrows_def exGenText_def exGenImage_def partsOf_def
        exTextResponse_def exImageResponse_def)

lemma exRun:
  "run exEnv [Mount (exProps 0)] exEmpty = Inr exLoaded"
  "run exEnv [Mount (exProps 0), Stroke (\<lambda>i. 255) (exProps 0)] exEmpty = Inr exPainted"
  by (simp_all add: exLoaded_mounted exPainted_def)

lemma exMount:
  assumes "originalImage p = exImage" and "\<not> manualMaskPreview p"
  shows "initEffect p exEmpty = Inr exLoaded"
  using assms by (simp add: initEffect_def) (simp add: eval_simps)

lemma exApply:
  assumes "triggerManualApply p \<noteq> Number 0" and "\<not> manualMaskPreview p"
  shows "manualApplyEffect p exLoaded = Inr exCommitted"
  using assms by (simp add: manualApplyEffect_def exLoaded_def) (simp add: eval_simps)

lemma exRerender: "renderCanvas False exLoaded = exLoaded"
  by (simp add: eval_simps)

lemma exAppProps:
  "originalImage (workspaceProps exApp exHtml) = exImage"
  "\<not> manualMaskPreview (workspaceProps exApp exHtml)"
  "processedImageOverride (workspaceProps exApp exHtml) = None"
  "triggerAutoRemove (workspaceProps exApp exHtml) = Number 0"
  "triggerUndo (workspaceProps exApp exHtml) = Undefined"
  "triggerManualApply (workspaceProps exApp exHtml) = Undefined"
  by (simp_all add: workspaceProps_def exApp_def exHtml_def)

lemma exProps_more:
  "\<not> manualMaskPreview (exProps t)"
  by (simp add: exProps_def)

section \<open>The claims\<close>

text \<open>
  C7. Undo never changes the mask layer. In a loaded session with a non-zero undo trigger,
  undo removes the topmost snapshot and makes the new top the base layer when the history
  holds more than one snapshot; otherwise the history holds exactly one snapshot and undo
  changes nothing.
\<close>

theorem undo_restores_previous:
  "maskLayer (undoEffect p st) = maskLayer st \<and>
   (sessionInv st \<and> triggerUndo p \<noteq> Number 0 \<longrightarrow>
      (if 1 < length (history st)
       then history (undoEffect p st) = butlast (history st) \<and>
            baseLayer (undoEffect p st) = Some (last (butlast (history st)))
       else length (history st) = 1 \<and> undoEffect p st = st))"
proof (intro conjI impI)
  show "maskLayer (undoEffect p st) = maskLayer st" by (rule maskLayer_undoEffect)
next
  assume a: "sessionInv st \<and> triggerUndo p \<noteq> Number 0"
  then have inv: "sessionInv st" and t: "triggerUndo p \<noteq> Number 0" by simp_all
  show "if 1 < length (history st)
       then history (undoEffect p st) = butlast (history st) \<and>
            baseLayer (undoEffect p st) = Some (last (butlast (history st)))
       else length (history st) = 1 \<and> undoEffect p st = st"
  proof (cases "1 < length (history st)")
    case True
    show ?thesis unfolding undoEffect_result [OF inv t True] using True
      by (simp add: onProcessedImageUpdate_fields renderCanvas_fields)
  next
    case False
    from inv have "history st \<noteq> []" by (auto elim!: sessionInvD)
    with False have "length (history st) = 1" by (cases "history st") auto
    moreover from False have "undoEffect p st = st" by (intro undoEffect_noop) simp
    ultimately show ?thesis using False by simp
  qed
qed

theorem undo_restores_previous_witness:
  "sessionInv exCommitted \<and> sessionInv exLoaded \<and> triggerUndo (exProps 1) \<noteq> Number 0 \<and>
   length (history exCommitted) = 2 \<and>
   history (undoEffect (exProps 1) exCommitted) = [exImage] \<and>
   baseLayer (undoEffect (exProps 1) exCommitted) = Some exImage \<and>
   maskLayer (undoEffect (exProps 1) exCommitted) = maskLayer exCommitted \<and>
   length (history exLoaded) = 1 \<and> undoEffect (exProps 1) exLoaded = exLoaded"
proof -
  have i1: "sessionInv exCommitted" and i2: "sessionInv exLoaded"
    by (simp_all add: eval_simps)
  have t: "triggerUndo (exProps 1) \<noteq> Number 0" by (simp add: exProps_def)
  have h: "history exCommitted = [exImage, exImage]" "history exLoaded = [exImage]"
    by (simp_all add: exCommitted_def exLoaded_def)
  show ?thesis
    using undo_restores_previous [of "exProps 1" exCommitted]
      undo_restores_previous [of "exProps 1" exLoaded] i1 i2 t
    by (simp add: h)
qed

text \<open>
  C8. Rendering leaves the base layer, the mask layer and the history as they are: only
  the display bitmap is written. Rendering again, any number of times, gives the state
  that rendering once gives.
\<close>

theorem renderCanvas_pure:
  "baseLayer (renderCanvas preview st) = baseLayer st \<and>
   maskLayer (renderCanvas preview st) = maskLayer st \<and>
   history (renderCanvas preview st) = history st \<and>
   renderCanvas preview (renderCanvas preview st) = renderCanvas preview st \<and>
   (renderCanvas preview ^^ Suc n) st = renderCanvas preview st"
proof -
  have idem: "renderCanvas preview (renderCanvas preview st) = renderCanvas preview st" for st
  proof (cases "baseLayer st = None \<or> maskLayer st = None")
    case True
    then show ?thesis by (auto simp: renderCanvas_def split: option.splits)
  next
    case False
    then obtain b m where bm: "baseLayer st = Some b" "maskLayer st = Some m" by auto
    define d2 where "d2 = display (renderCanvas preview st)"
    have sz: "width d2 = width (display st)" "height d2 = height (display st)"
      unfolding d2_def using bm
      by (simp_all add: renderCanvas_def Let_def drawImage_def width_paint height_paint
            width_clearRect height_clearRect)
    have c: "clearRect (width d2) (height d2) d2
               = clearRect (width (display st)) (height (display st)) (display st)"
      using clearRect_full [of d2] clearRect_full [of "display st"] sz by simp
    have r: "renderCanvas preview st = st\<lparr>display := d2\<rparr>"
      unfolding d2_def using bm by (simp add: renderCanvas_def Let_def)
    show ?thesis
      unfolding r using bm c
      by (simp add: renderCanvas_def Let_def) (simp add: d2_def renderCanvas_def Let_def bm)
  qed
  have "(renderCanvas preview ^^ Suc n) st = renderCanvas preview st"
    by (induction n) (simp_all add: idem)
  then show ?thesis by (simp add: renderCanvas_fields idem del: funpow.simps)
qed

text \<open>
  With a trigger equal to 0 the auto-remove, undo and manual-apply effects return the
  session unchanged.
\<close>

theorem trigger_zero_noop:
  "(triggerAutoRemove p = Number 0 \<longrightarrow> autoRemoveEffect e p st = Inr st) \<and>
   (triggerUndo p = Number 0 \<longrightarrow> undoEffect p st = st) \<and>
   (triggerManualApply p = Number 0 \<longrightarrow> manualApplyEffect p st = Inr st)"
  by (simp add: autoRemoveEffect_def undoEffect_def manualApplyEffect_def)

theorem trigger_zero_noop_witness:
  "triggerAutoRemove (exProps 0) = Number 0 \<and> triggerUndo (exProps 0) = Number 0 \<and>
   triggerManualApply (exProps 0) = Number 0 \<and>
   autoRemoveEffect exEnv (exProps 0) exCommitted = Inr exCommitted \<and>
   undoEffect (exProps 0) exCommitted = exCommitted \<and>
   manualApplyEffect (exProps 0) exCommitted = Inr exCommitted"
  using trigger_zero_noop [of "exProps 0" exEnv exCommitted] by (simp add: exProps_def)

text \<open>
  C10 (where the code departs from it). \<open>App\<close> mounts the workspace without
  \<open>triggerUndo\<close> and \<open>triggerManualApply\<close>, so neither guard \<open>=== 0\<close> holds at mount.
  The undo effect finds a single snapshot and does nothing, but the manual-apply effect
  runs: mounting the grey image from the initial state of \<open>App\<close> ends with two snapshots
  in the history. With all three triggers equal to 0 the same mount ends with one.
\<close>

theorem mount_with_app_props_commits:
  "triggerUndo (workspaceProps exApp exHtml) = Undefined \<and>
   triggerManualApply (workspaceProps exApp exHtml) = Undefined \<and>
   run exEnv (mountEffects (workspaceProps exApp exHtml)) exEmpty = Inr exCommitted \<and>
   history exCommitted = [exImage, exImage] \<and>
   run exEnv (mountEffects (exProps 0)) exEmpty = Inr exLoaded \<and>
   history exLoaded = [exImage]"
proof -
  let ?p = "workspaceProps exApp exHtml"
  have m: "initEffect ?p exEmpty = Inr exLoaded" by (rule exMount [OF exAppProps(1,2)])
  have ai: "aiOverrideEffect exEnv ?p exLoaded = Inr exLoaded"
    by (simp add: aiOverrideEffect_def exAppProps)
  have au: "autoRemoveEffect exEnv ?p exLoaded = Inr exLoaded"
    by (simp add: autoRemoveEffect_def exAppProps)
  have u: "undoEffect ?p exLoaded = exLoaded"
    by (rule undoEffect_noop) (simp add: exLoaded_fields)
  have c: "manualApplyEffect ?p exLoaded = Inr exCommitted"
    by (rule exApply) (simp_all add: exAppProps)
  have app: "run exEnv (mountEffects ?p) exEmpty = Inr exCommitted"
    by (simp add: mountEffects_def m exAppProps(2) exRerender ai au u c)
  let ?q = "exProps 0"
  have m0: "initEffect ?q exEmpty = Inr exLoaded" by (rule exLoaded_mounted)
  have ai0: "aiOverrideEffect exEnv ?q exLoaded = Inr exLoaded"
    by (simp add: aiOverrideEffect_def exProps_fields)
  have au0: "autoRemoveEffect exEnv ?q exLoaded = Inr exLoaded"
    by (simp add: autoRemoveEffect_def exProps_triggers)
  have u0: "undoEffect ?q exLoaded = exLoaded"
    by (rule undoEffect_noop) (simp add: exLoaded_fields)
  have c0: "manualApplyEffect ?q exLoaded = Inr exLoaded"
    by (simp add: manualApplyEffect_def exProps_triggers)
  have zero: "run exEnv (mountEffects ?q) exEmpty = Inr exLoaded"
    by (simp add: mountEffects_def m0 exProps_more exRerender ai0 au0 u0 c0)
  show ?thesis
    using app zero exAppProps(5,6) exCommitted_fields(2) exLoaded_fields(3) by (intro conjI)
qed

text \<open>
  C1 (as the code has it). In a loaded session with a non-zero manual-apply trigger the
  commit succeeds and draws the mask onto the base with destination-out: each base pixel
  becomes \<open>destinationOut 255\<close> of the mask pixel and itself, so its alpha is 0 where the
  mask is fully opaque and the pixel is unchanged where the mask is transparent. The mask
  is cleared, and the new base is appended to the history, the oldest snapshot being
  dropped when 20 were already held. With an empty mask the base is unchanged, and its
  snapshot is appended all the same.
\<close>

theorem commitMask_composites_and_pushes:
  assumes "sessionInv st" and "baseLayer st = Some b" and "maskLayer st = Some m"
    and "triggerManualApply p \<noteq> Number 0"
  shows "\<exists>st' b'. manualApplyEffect p st = Inr st' \<and> baseLayer st' = Some b' \<and> sameSize b' b \<and>
           (\<forall>i < width b * height b.
              px b' i = destinationOut 255 (px m i) (px b i) \<and>
              (alpha (px m i) = 255 \<longrightarrow> alpha (px b' i) = 0) \<and>
              (alpha (px m i) = 0 \<longrightarrow> px b' i = px b i)) \<and>
           maskLayer st' = Some (createCanvas (width b) (height b)) \<and>
           history st' = (if length (history st) < 20 then history st else tl (history st)) @ [b'] \<and>
           (m = createCanvas (width b) (height b) \<longrightarrow> b' = b)"
proof -
  let ?b' = "drawImage DestinationOut 255 m b"
  let ?st' = "onProcessedImageUpdate ?b' (renderCanvas (manualMaskPreview p)
                (st\<lparr>baseLayer := Some ?b', maskLayer := Some (createCanvas (width b) (height b)),
                    history := pushHistory ?b' (history st)\<rparr>))"
  from assms(1-3) have sz: "sameSize m b" and wfb: "wellFormed b"
    and len: "length (history st) \<le> 20"
    by (auto elim!: sessionInvD)
  have r: "manualApplyEffect p st = Inr ?st'" by (rule manualApplyEffect_result [OF assms])
  have base: "baseLayer ?st' = Some ?b'"
    and mask: "maskLayer ?st' = Some (createCanvas (width b) (height b))"
    and hist: "history ?st' = pushHistory ?b' (history st)"
    by (simp_all add: onProcessedImageUpdate_fields renderCanvas_fields)
  have pix: "px ?b' i = destinationOut 255 (px m i) (px b i)" if "i < width b * height b" for i
    using sz that by (simp add: px_drawImage)
  have opaque: "alpha (px ?b' i) = 0" if "i < width b * height b" "alpha (px m i) = 255" for i
    using that by (simp add: pix destinationOut_opaque)
  have clear: "px ?b' i = px b i" if "i < width b * height b" "alpha (px m i) = 0" for i
    using that by (simp add: pix destinationOut_uncovered coverage_zero_iff)
  have empty: "?b' = b" if "m = createCanvas (width b) (height b)"
    unfolding that by (rule drawImage_transparent_out [OF wfb])
  have "sameSize ?b' b" by (simp add: drawImage_def sameSize_paint)
  moreover have "history ?st'
      = (if length (history st) < 20 then history st else tl (history st)) @ [?b']"
    unfolding hist by (rule pushHistory_props(1) [OF len])
  ultimately show ?thesis
    using r base mask pix opaque clear empty by blast
qed

theorem commitMask_composites_and_pushes_witness:
  "sessionInv exPainted \<and> sessionInv exLoaded \<and> triggerManualApply (exProps 1) \<noteq> Number 0 \<and>
   (\<exists>st' b'. manualApplyEffect (exProps 1) exPainted = Inr st' \<and> baseLayer st' = Some b' \<and>
      alpha (px b' 0) = 0 \<and> maskLayer st' = Some (createCanvas 1 1) \<and>
      history st' = [exImage, b']) \<and>
   (\<exists>st'. manualApplyEffect (exProps 1) exLoaded = Inr st' \<and> baseLayer st' = Some exImage \<and>
      maskLayer st' = Some (createCanvas 1 1) \<and> history st' = [exImage, exImage])"
proof -
  have t: "triggerManualApply (exProps 1) \<noteq> Number 0" by (simp add: exProps_triggers)
  from commitMask_composites_and_pushes [OF exPainted_fields(1,2,4) t]
  obtain st' b' where 1: "manualApplyEffect (exProps 1) exPainted = Inr st'"
    "baseLayer st' = Some b'"
    "\<forall>i < width exImage * height exImage.
        px b' i = destinationOut 255
            (px \<lparr>width = 1, height = 1, data = [\<lparr>red = 255, green = 0, blue = 0, alpha = 255\<rparr>]\<rparr> i)
            (px exImage i) \<and>
        (alpha (px \<lparr>width = 1, height = 1, data = [\<lparr>red = 255, green = 0, blue = 0, alpha = 255\<rparr>]\<rparr> i) = 255
           \<longrightarrow> alpha (px b' i) = 0) \<and>
        (alpha (px \<lparr>width = 1, height = 1, data = [\<lparr>red = 255, green = 0, blue = 0, alpha = 255\<rparr>]\<rparr> i) = 0
           \<longrightarrow> px b' i = px exImage i)"
    "maskLayer st' = Some (createCanvas (width exImage) (height exImage))"
    "history st' = (if length (history exPainted) < 20 then history exPainted
                    else tl (history exPainted)) @ [b']"
    by blast
  from 1(3) have "alpha (px b' 0) = 0"
    by (simp add: exImage_fields exPx destinationOut_opaque)
  with 1 have painted: "\<exists>st' b'. manualApplyEffect (exProps 1) exPainted = Inr st' \<and>
      baseLayer st' = Some b' \<and> alpha (px b' 0) = 0 \<and> maskLayer st' = Some (createCanvas 1 1) \<and>
      history st' = [exImage, b']"
    by (simp add: exImage_fields exPainted_fields)
  from commitMask_composites_and_pushes [OF exLoaded_inv exLoaded_fields(1,2) t]
  obtain st2 b2 where 2: "manualApplyEffect (exProps 1) exLoaded = Inr st2"
    "baseLayer st2 = Some b2"
    "maskLayer st2 = Some (createCanvas (width exImage) (height exImage))"
    "history st2 = (if length (history exLoaded) < 20 then history exLoaded
                    else tl (history exLoaded)) @ [b2]"
    "createCanvas 1 1 = createCanvas (width exImage) (height exImage) \<longrightarrow> b2 = exImage"
    by blast
  then have "\<exists>st'. manualApplyEffect (exProps 1) exLoaded = Inr st' \<and>
      baseLayer st' = Some exImage \<and> maskLayer st' = Some (createCanvas 1 1) \<and>
      history st' = [exImage, exImage]"
    by (simp add: exImage_fields exLoaded_fields)
  with painted show ?thesis using exPainted_fields(1) exLoaded_inv t by blast
qed

text \<open>
  The commit as the specification words it fails twice on the code: committing the empty
  mask of the freshly loaded session appends a second snapshot, and a mask pixel painted
  with alpha 128 leaves the base pixel with alpha 127, not 0.
\<close>

theorem commitMask_counterexample:
  "maskLayer exLoaded = Some (createCanvas 1 1) \<and> history exLoaded = [exImage] \<and>
   baseOf (manualApplyEffect (exProps 1) exLoaded) = baseLayer exLoaded \<and>
   historyOf (manualApplyEffect (exProps 1) exLoaded) = [exImage, exImage] \<and>
   maskLayer exHalf
     = Some \<lparr>width = 1, height = 1, data = [\<lparr>red = 255, green = 0, blue = 0, alpha = 128\<rparr>]\<rparr> \<and>
   baseOf (manualApplyEffect (exProps 1) exHalf)
     = Some \<lparr>width = 1, height = 1, data = [\<lparr>red = 10, green = 10, blue = 10, alpha = 127\<rparr>]\<rparr>"
proof -
  have t: "triggerManualApply (exProps 1) \<noteq> Number 0" by (simp add: exProps_triggers)
  have "destinationOut 255 \<lparr>red = 255, green = 0, blue = 0, alpha = 128\<rparr> grey
          = \<lparr>red = 10, green = 10, blue = 10, alpha = 127\<rparr>"
    by (simp add: destinationOut_def coverage_def grey_def rdiv_def clamp8_def)
  then have "baseOf (manualApplyEffect (exProps 1) exHalf)
     = Some \<lparr>width = 1, height = 1, data = [\<lparr>red = 10, green = 10, blue = 10, alpha = 127\<rparr>]\<rparr>"
    unfolding manualApplyEffect_result [OF exHalf_fields(1,2,4) t]
    by (simp add: baseOf_def onProcessedImageUpdate_fields renderCanvas_fields exImage_def exDraw)
  moreover have "baseOf (manualApplyEffect (exProps 1) exLoaded) = baseLayer exLoaded"
    and "historyOf (manualApplyEffect (exProps 1) exLoaded) = [exImage, exImage]"
    unfolding exCommitted_applied baseOf_def historyOf_def
    by (simp_all add: exCommitted_def exLoaded_def)
  ultimately show ?thesis
    using exLoaded_fields(2,3) exHalf_fields(4) by (intro conjI)
qed

text \<open>
  C2 (as the code has it). In a loaded session with a non-zero auto-remove trigger the
  effect succeeds; the new base is \<open>removeBackgroundSmart\<close>, with the current tolerance
  and smoothing, of the original image drawn on a cleared canvas of the base's size, so
  nothing of the previous base content enters it. The mask is cleared, and the history is
  replaced by the single snapshot of the new base.
\<close>

theorem autoRemove_from_original:
  assumes "sessionInv st" and "baseLayer st = Some b" and "triggerAutoRemove p \<noteq> Number 0"
  shows "\<exists>st' b' fresh. autoRemoveEffect e p st = Inr st' \<and>
           fresh = drawImage SourceOver 255 (originalImage p) (createCanvas (width b) (height b)) \<and>
           b' = fresh\<lparr>data := map (removeBackgroundSmart e fresh (width b) (height b)
                                      (tolerance p) (smoothing p)) [0 ..< width b * height b]\<rparr> \<and>
           baseLayer st' = Some b' \<and>
           maskLayer st' = Some (createCanvas (width b) (height b)) \<and>
           history st' = [b']"
  unfolding autoRemoveEffect_result(1) [OF assms]
  by (simp add: onProcessedImageUpdate_fields renderCanvas_fields)

theorem autoRemove_from_original_witness:
  "sessionInv exErased \<and> baseLayer exErased = Some exErasedBase \<and>
   triggerAutoRemove (exProps 1) \<noteq> Number 0 \<and>
   baseOf (autoRemoveEffect exEnv (exProps 1) exErased)
     = Some \<lparr>width = 1, height = 1, data = [\<lparr>red = 10, green = 10, blue = 10, alpha = 127\<rparr>]\<rparr> \<and>
   maskOf (autoRemoveEffect exEnv (exProps 1) exErased) = Some (createCanvas 1 1) \<and>
   historyOf (autoRemoveEffect exEnv (exProps 1) exErased)
     = [\<lparr>width = 1, height = 1, data = [\<lparr>red = 10, green = 10, blue = 10, alpha = 127\<rparr>]\<rparr>]"
proof -
  have t: "triggerAutoRemove (exProps 1) \<noteq> Number 0" by (simp add: exProps_triggers)
  have sz: "width exErasedBase = 1" "height exErasedBase = 1" by (simp_all add: exErasedBase_def)
  from autoRemove_from_original [OF exErased_fields(1,2) t, of exEnv]
  obtain st' where "autoRemoveEffect exEnv (exProps 1) exErased = Inr st'"
    and "baseLayer st'
      = Some (exImage\<lparr>data := map (removeBackgroundSmart exEnv exImage 1 1 15 0) [0 ..< 1 * 1]\<rparr>)"
    and "maskLayer st' = Some (createCanvas 1 1)"
    and "history st'
      = [exImage\<lparr>data := map (removeBackgroundSmart exEnv exImage 1 1 15 0) [0 ..< 1 * 1]\<rparr>]"
    unfolding sz exProps_fields exFresh by auto
  then show ?thesis
    unfolding exSegmented using exErased_fields(1,2) t
    by (simp add: baseOf_def maskOf_def historyOf_def)
qed

text \<open>
  The history is not pushed onto: after a commit it holds two snapshots, and after the
  auto-remove effect it holds the new base alone.
\<close>

theorem autoRemove_counterexample:
  "history exErased = [exImage, exErasedBase] \<and>
   historyOf (autoRemoveEffect exEnv (exProps 1) exErased)
     = [\<lparr>width = 1, height = 1, data = [\<lparr>red = 10, green = 10, blue = 10, alpha = 127\<rparr>]\<rparr>]"
proof -
  have t: "triggerAutoRemove (exProps 1) \<noteq> Number 0" by (simp add: exProps_triggers)
  have sz: "width exErasedBase = 1" "height exErasedBase = 1" by (simp_all add: exErasedBase_def)
  have "historyOf (autoRemoveEffect exEnv (exProps 1) exErased)
     = [exImage\<lparr>data := map (removeBackgroundSmart exEnv exImage 1 1 15 0) [0 ..< 1 * 1]\<rparr>]"
    unfolding autoRemoveEffect_result(1) [OF exErased_fields(1,2) t] sz exProps_fields exFresh
    by (simp add: historyOf_def onProcessedImageUpdate_fields renderCanvas_fields)
  then show ?thesis unfolding exSegmented using exErased_fields(3) by simp
qed

text \<open>
  C3 (as the code has it). In a loaded session, an override URL that decodes to an image
  makes the AI override effect succeed; the new base is that image drawn, scaled to the
  width and height of the current base, on a cleared canvas of that size, so the base
  keeps its dimensions. The mask is cleared and the history is the single snapshot of the
  new base.
\<close>

theorem aiOverride_redraws_at_base_size:
  assumes "sessionInv st" and "baseLayer st = Some b"
    and "processedImageOverride p = Some url" and "url \<noteq> []"
    and "decodeImage e url = Some img"
  shows "\<exists>st' b'. aiOverrideEffect e p st = Inr st' \<and>
           b' = drawImage SourceOver 255 (scaled e img (width b) (height b))
                  (createCanvas (width b) (height b)) \<and>
           baseLayer st' = Some b' \<and> width b' = width b \<and> height b' = height b \<and>
           maskLayer st' = Some (createCanvas (width b) (height b)) \<and>
           history st' = [b']"
proof -
  have "aiOverrideEffect e p st = aiOverrideOnload e p img st"
    using assms(2-5) by (simp add: aiOverrideEffect_def)
  then show ?thesis
    unfolding aiOverrideOnload_result [OF assms(1,2)]
    by (simp add: onProcessedImageUpdate_fields renderCanvas_fields drawImage_def
          width_paint height_paint width_createCanvas height_createCanvas)
qed

theorem aiOverride_redraws_at_base_size_witness:
  "sessionInv exCommitted \<and> baseLayer exCommitted = Some exImage \<and>
   processedImageOverride exPropsAi = Some ''data:image/png;base64,AAAA'' \<and>
   decodeImage exEnv ''data:image/png;base64,AAAA'' = Some exWide \<and>
   baseOf (aiOverrideEffect exEnv exPropsAi exCommitted)
     = Some \<lparr>width = 1, height = 1, data = [white]\<rparr> \<and>
   maskOf (aiOverrideEffect exEnv exPropsAi exCommitted) = Some (createCanvas 1 1) \<and>
   historyOf (aiOverrideEffect exEnv exPropsAi exCommitted)
     = [\<lparr>width = 1, height = 1, data = [white]\<rparr>]"
proof -
  have ne: "''data:image/png;base64,AAAA'' \<noteq> []" by simp
  from aiOverride_redraws_at_base_size
         [OF exCommitted_inv exCommitted_fields(1) exPropsAi_fields(1) ne exPropsAi_fields(2)]
  obtain st' where "aiOverrideEffect exEnv exPropsAi exCommitted = Inr st'"
    and "baseLayer st' = Some (drawImage SourceOver 255 (scaled exEnv exWide 1 1) (createCanvas 1 1))"
    and "maskLayer st' = Some (createCanvas 1 1)"
    and "history st' = [drawImage SourceOver 255 (scaled exEnv exWide 1 1) (createCanvas 1 1)]"
    unfolding exImage_fields by auto
  then show ?thesis
    unfolding exScaled using exCommitted_inv exCommitted_fields(1) exPropsAi_fields
    by (simp add: baseOf_def maskOf_def historyOf_def)
qed

text \<open>
  The base is not resized: an incoming image two pixels wide, applied to a base one pixel
  wide, leaves a base one pixel wide.
\<close>

theorem aiOverride_counterexample:
  "width exWide = 2 \<and>
   baseOf (aiOverrideEffect exEnv exPropsAi exCommitted)
     = Some \<lparr>width = 1, height = 1, data = [white]\<rparr>"
proof -
  have "aiOverrideEffect exEnv exPropsAi exCommitted
          = aiOverrideOnload exEnv exPropsAi exWide exCommitted"
    by (simp add: aiOverrideEffect_def exPropsAi_fields exCommitted_fields)
  then have "baseOf (aiOverrideEffect exEnv exPropsAi exCommitted)
     = Some (drawImage SourceOver 255 (scaled exEnv exWide 1 1) (createCanvas 1 1))"
    unfolding aiOverrideOnload_result [OF exCommitted_inv exCommitted_fields(1)] exImage_fields
    by (simp add: baseOf_def onProcessedImageUpdate_fields renderCanvas_fields)
  then show ?thesis unfolding exScaled by (simp add: exWide_def)
qed

text \<open>
  C4 (as the code has it). Where base, mask and display have one size, every displayed
  pixel in preview mode is destination-out of the mask pixel on the base pixel: its alpha
  is 0 exactly when the base alpha times the mask's transparency rounds to 0, so it is 0
  under a fully opaque mask pixel, it is the base alpha under a transparent one, and it
  never exceeds the base alpha. In editing mode the mask pixel is blended source-over at
  153/255 = 60 percent, and a pixel under a transparent mask pixel is displayed as the
  base pixel, with the base alpha.
\<close>

theorem composite_modes:
  assumes "baseLayer st = Some b" and "maskLayer st = Some m"
    and "sameSize b (display st)" and "sameSize m (display st)"
    and "i < width (display st) * height (display st)"
  shows "px (display (renderCanvas True st)) i
           = destinationOut 255 (px m i) (sourceOver 255 (px b i) transparent) \<and>
         (alpha (px (display (renderCanvas True st)) i) = 0
            \<longleftrightarrow> 2 * (unat (alpha (px b i)) * (255 - unat (alpha (px m i)))) < 255) \<and>
         (alpha (px m i) = 255 \<longrightarrow> alpha (px (display (renderCanvas True st)) i) = 0) \<and>
         (alpha (px m i) = 0 \<longrightarrow>
            alpha (px (display (renderCanvas True st)) i) = alpha (px b i)) \<and>
         unat (alpha (px (display (renderCanvas True st)) i)) \<le> unat (alpha (px b i)) \<and>
         px (display (renderCanvas False st)) i
           = sourceOver 153 (px m i) (sourceOver 255 (px b i) transparent) \<and>
         (alpha (px m i) = 0 \<longrightarrow>
            px (display (renderCanvas False st)) i = sourceOver 255 (px b i) transparent \<and>
            alpha (px (display (renderCanvas False st)) i) = alpha (px b i))"
proof -
  let ?base = "sourceOver 255 (px b i) transparent"
  note d = renderCanvas_display [OF assms]
  have a: "alpha ?base = alpha (px b i)" by (rule alpha_sourceOver_transparent)
  have zero: "alpha (destinationOut 255 (px m i) ?base) = 0
                \<longleftrightarrow> 2 * (unat (alpha (px b i)) * (255 - unat (alpha (px m i)))) < 255"
    unfolding destinationOut_alpha_zero_iff a ..
  have opaque: "alpha (destinationOut 255 (px m i) ?base) = 0" if "alpha (px m i) = 255"
    using that by (rule destinationOut_opaque)
  have clear: "destinationOut 255 (px m i) ?base = ?base" if "alpha (px m i) = 0"
    using that by (intro destinationOut_uncovered) (simp add: coverage_zero_iff)
  have le: "unat (alpha (destinationOut 255 (px m i) ?base)) \<le> unat (alpha (px b i))"
    using destinationOut_le [of 255 "px m i" ?base] unfolding a .
  have over: "sourceOver 153 (px m i) ?base = ?base" if "alpha (px m i) = 0"
    using that by (intro sourceOver_uncovered) (simp add: coverage_153_zero_iff)
  show ?thesis
    unfolding d using zero opaque clear le over a by simp
qed

theorem composite_modes_witness:
  "baseLayer exPainted = Some exImage \<and> baseLayer exLoaded = Some exImage \<and>
   sameSize exImage (display exPainted) \<and> sameSize exImage (display exLoaded) \<and>
   alpha (px (display (renderCanvas True exPainted)) 0) = 0 \<and>
   px (display (renderCanvas False exPainted)) 0
     = \<lparr>red = 157, green = 4, blue = 4, alpha = 255\<rparr> \<and>
   alpha (px (display (renderCanvas True exLoaded)) 0) = 255 \<and>
   px (display (renderCanvas False exLoaded)) 0 = grey"
proof -
  note p = composite_modes [OF exPainted_fields(2,4) exDisplay(3,4,8)]
  note l = composite_modes [OF exLoaded_fields(1,2) exDisplay(1,2,7)]
  let ?red = "\<lparr>width = 1, height = 1, data = [\<lparr>red = 255, green = 0, blue = 0, alpha = 255\<rparr>]\<rparr>"
  from p have "alpha (px ?red 0) = 255 \<longrightarrow> alpha (px (display (renderCanvas True exPainted)) 0) = 0"
    by blast
  then have "alpha (px (display (renderCanvas True exPainted)) 0) = 0" by (simp add: exPx)
  moreover from p have "px (display (renderCanvas False exPainted)) 0
      = sourceOver 153 (px ?red 0) (sourceOver 255 (px exImage 0) transparent)"
    by blast
  then have "px (display (renderCanvas False exPainted)) 0
     = \<lparr>red = 157, green = 4, blue = 4, alpha = 255\<rparr>"
    by (simp add: exPx exImage_fields exBlend)
  moreover from l have "alpha (px (createCanvas 1 1) 0) = 0 \<longrightarrow>
      alpha (px (display (renderCanvas True exLoaded)) 0) = alpha (px exImage 0)"
    by blast
  then have "alpha (px (display (renderCanvas True exLoaded)) 0) = 255"
    by (simp add: px_createCanvas exImage_fields alpha_transparent grey_def)
  moreover from l have "alpha (px (createCanvas 1 1) 0) = 0 \<longrightarrow>
      px (display (renderCanvas False exLoaded)) 0 = sourceOver 255 (px exImage 0) transparent"
    by blast
  then have "px (display (renderCanvas False exLoaded)) 0 = grey"
    by (simp add: px_createCanvas exImage_fields exBlend alpha_transparent)
  ultimately show ?thesis
    using exPainted_fields(2) exLoaded_fields(1) exDisplay(1,3) by simp
qed

text \<open>
  The erase preview is proportional, not binary: under a mask pixel of alpha 128 the opaque
  grey pixel is displayed with alpha 127.
\<close>

theorem composite_counterexample:
  "maskLayer exHalf
     = Some \<lparr>width = 1, height = 1, data = [\<lparr>red = 255, green = 0, blue = 0, alpha = 128\<rparr>]\<rparr> \<and>
   px (display (renderCanvas True exHalf)) 0 = \<lparr>red = 10, green = 10, blue = 10, alpha = 127\<rparr>"
  using exHalf_fields(4) renderCanvas_display(1) [OF exHalf_fields(2,4) exDisplay(5,6,9)]
  by (simp add: exPx exImage_fields exBlend)

text \<open>
  C9. For the loaded image the AI call passes on the error that the service throws; it
  returns \<open>null\<close> when no part of the response carries a non-empty inline payload, and a
  non-empty data URL when some part does. So the call fails exactly when the service throws
  or the response has no image payload. When it fails, pressing the button leaves the
  session as it was and the override prop as it was.
\<close>

theorem ai_failure_leaves_session:
  assumes "appOriginalImage a = Some img"
  shows "(case gen (cleanBase64 (src img)) of
            Inl err \<Rightarrow> removeBackgroundWithAi gen (src img) = Inl err
          | Inr resp \<Rightarrow>
              (\<not> list_ex hasPayload (partsOf resp) \<longrightarrow>
                 removeBackgroundWithAi gen (src img) = Inr None) \<and>
              (list_ex hasPayload (partsOf resp) \<longrightarrow>
                 (\<exists>url. removeBackgroundWithAi gen (src img) = Inr (Some url) \<and> url \<noteq> []))) \<and>
         (aiFailed (removeBackgroundWithAi gen (src img)) \<longleftrightarrow>
            (case gen (cleanBase64 (src img)) of
               Inl err \<Rightarrow> True
             | Inr resp \<Rightarrow> \<not> list_ex hasPayload (partsOf resp))) \<and>
         (aiFailed (removeBackgroundWithAi gen (src img)) \<longrightarrow>
            aiRemove e gen p (a, st) = Inr (handleAiRemove gen a, st) \<and>
            appProcessedImageOverride (handleAiRemove gen a) = appProcessedImageOverride a)"
proof (intro conjI impI)
  show "case gen (cleanBase64 (src img)) of
            Inl err \<Rightarrow> removeBackgroundWithAi gen (src img) = Inl err
          | Inr resp \<Rightarrow>
              (\<not> list_ex hasPayload (partsOf resp) \<longrightarrow>
                 removeBackgroundWithAi gen (src img) = Inr None) \<and>
              (list_ex hasPayload (partsOf resp) \<longrightarrow>
                 (\<exists>url. removeBackgroundWithAi gen (src img) = Inr (Some url) \<and> url \<noteq> []))"
  proof (cases "gen (cleanBase64 (src img))")
    case (Inl err)
    then show ?thesis by (simp add: removeBackgroundWithAi_cases)
  next
    case (Inr resp)
    then have r: "removeBackgroundWithAi gen (src img) = Inr (firstImage (partsOf resp))"
      by (simp add: removeBackgroundWithAi_cases)
    have none: "removeBackgroundWithAi gen (src img) = Inr None"
      if "\<not> list_ex hasPayload (partsOf resp)"
      using that r by (simp add: firstImage_None_iff)
    have some: "\<exists>url. removeBackgroundWithAi gen (src img) = Inr (Some url) \<and> url \<noteq> []"
      if "list_ex hasPayload (partsOf resp)"
    proof -
      from that have "firstImage (partsOf resp) \<noteq> None" by (simp add: firstImage_None_iff)
      then obtain url where u: "firstImage (partsOf resp) = Some url" by auto
      then have "url \<noteq> []" by (rule firstImage_nonempty)
      with u r show ?thesis by simp
    qed
    from none some Inr show ?thesis by simp
  qed
next
  show "aiFailed (removeBackgroundWithAi gen (src img)) \<longleftrightarrow>
            (case gen (cleanBase64 (src img)) of
               Inl err \<Rightarrow> True
             | Inr resp \<Rightarrow> \<not> list_ex hasPayload (partsOf resp))"
  proof (cases "gen (cleanBase64 (src img))")
    case (Inl err)
    then show ?thesis by (simp add: removeBackgroundWithAi_cases)
  next
    case (Inr resp)
    then have "removeBackgroundWithAi gen (src img) = Inr (firstImage (partsOf resp))"
      by (simp add: removeBackgroundWithAi_cases)
    then show ?thesis using Inr
      by (cases "firstImage (partsOf resp)") (simp_all flip: firstImage_None_iff)
  qed
next
  assume f: "aiFailed (removeBackgroundWithAi gen (src img))"
  show h: "appProcessedImageOverride (handleAiRemove gen a) = appProcessedImageOverride a"
    by (rule handleAiRemove_failed [OF assms f])
  show "aiRemove e gen p (a, st) = Inr (handleAiRemove gen a, st)"
    by (simp add: aiRemove_def Let_def h)
qed

theorem ai_failure_leaves_session_witness:
  "appOriginalImage exApp = Some exHtml \<and>
   removeBackgroundWithAi exGenThrows (src exHtml) = Inl (ServiceError ''quota exceeded'') \<and>
   \<not> list_ex hasPayload (partsOf exTextResponse) \<and>
   removeBackgroundWithAi exGenText (src exHtml) = Inr None \<and>
   list_ex hasPayload (partsOf exImageResponse) \<and>
   \<not> aiFailed (removeBackgroundWithAi exGenImage (src exHtml)) \<and>
   aiFailed (removeBackgroundWithAi exGenThrows (src exHtml)) \<and>
   aiFailed (removeBackgroundWithAi exGenText (src exHtml)) \<and>
   aiRemove exEnv exGenThrows (exProps 0) (exApp, exCommitted)
     = Inr (exApp\<lparr>appAlerts := 1\<rparr>, exCommitted) \<and>
   aiRemove exEnv exGenText (exProps 0) (exApp, exCommitted) = Inr (exApp, exCommitted)"
proof -
  note onThrow = ai_failure_leaves_session [OF exApp_fields(1), of exGenThrows exEnv "exProps 0" exCommitted]
  note onText = ai_failure_leaves_session [OF exApp_fields(1), of exGenText exEnv "exProps 0" exCommitted]
  note onImage = ai_failure_leaves_session [OF exApp_fields(1), of exGenImage exEnv "exProps 0" exCommitted]
  have r1: "removeBackgroundWithAi exGenThrows (src exHtml) = Inl (ServiceError ''quota exceeded'')"
    and f1: "aiFailed (removeBackgroundWithAi exGenThrows (src exHtml))"
    using onThrow unfolding exGen_calls by simp_all
  have r2: "removeBackgroundWithAi exGenText (src exHtml) = Inr None"
    and f2: "aiFailed (removeBackgroundWithAi exGenText (src exHtml))"
    using onText exGen_calls(4) unfolding exGen_calls(2) by simp_all
  have f3: "\<not> aiFailed (removeBackgroundWithAi exGenImage (src exHtml))"
    using onImage exGen_calls(5) unfolding exGen_calls(3) by simp
  have h1: "handleAiRemove exGenThrows exApp = exApp\<lparr>appAlerts := 1\<rparr>"
    and h2: "handleAiRemove exGenText exApp = exApp"
    by (simp_all add: handleAiRemove_def exApp_fields(1) exGen_results) (simp_all add: exApp_def)
  have a1: "aiRemove exEnv exGenThrows (exProps 0) (exApp, exCommitted)
              = Inr (exApp\<lparr>appAlerts := 1\<rparr>, exCommitted)"
    using onThrow f1 unfolding h1 by blast
  have a2: "aiRemove exEnv exGenText (exProps 0) (exApp, exCommitted) = Inr (exApp, exCommitted)"
    using onText f2 unfolding h2 by blast
  show ?thesis
    using exApp_fields(1) r1 r2 f1 f2 f3 a1 a2 exGen_calls(4,5) by (intro conjI)
qed

text \<open>
  C5. In every state that a run of the component reaches from a mount, the history holds
  between 1 and 20 snapshots and its last element is the base layer. A commit appends the
  new base and drops the oldest snapshot exactly when 20 were held. After 25 rounds of
  strokes and a commit, the history is the last 20 of the 25 committed snapshots, in
  order, and the base layer is the last of them.
\<close>

theorem history_bounded_fifo:
  assumes "run e (Mount p0 # evs) st0 = Inr st" and "triggerManualApply p \<noteq> Number 0"
    and "length rs = 25"
  shows "length (history st) \<le> 20 \<and> history st \<noteq> [] \<and>
         baseLayer st = Some (last (history st)) \<and>
         (\<exists>st'. manualApplyEffect p st = Inr st' \<and>
            baseLayer st' = Some (last (history st')) \<and>
            history st' = (if length (history st) < 20 then history st else tl (history st))
                            @ [last (history st')]) \<and>
         (\<exists>st' snaps. commitRounds p rs st = Inr (st', snaps) \<and> length snaps = 25 \<and>
            history st' = drop 5 snaps \<and> length (history st') = 20 \<and>
            baseLayer st' = Some (last snaps))"
proof -
  have inv: "sessionInv st" by (rule run_mount_inv [OF assms(1)])
  then obtain b where b: "baseLayer st = Some b" and ne: "history st \<noteq> []"
    and len: "length (history st) \<le> 20" and top: "last (history st) = b"
    by (auto elim!: sessionInvD)
  from manualApplyEffect_history [OF inv assms(2)]
  obtain st1 where 1: "manualApplyEffect p st = Inr st1"
    "baseLayer st1 = Some (last (history st1))"
    "history st1 = pushHistory (last (history st1)) (history st)"
    by blast
  have one: "\<exists>st'. manualApplyEffect p st = Inr st' \<and>
            baseLayer st' = Some (last (history st')) \<and>
            history st' = (if length (history st) < 20 then history st else tl (history st))
                            @ [last (history st')]"
    using 1 pushHistory_props(1) [OF len, of "last (history st1)"] by auto
  from commitRounds_history [OF inv assms(2), of rs]
  obtain st2 snaps where 2: "commitRounds p rs st = Inr (st2, snaps)" "sessionInv st2"
    "length snaps = length rs"
    "history st2 = drop (length (history st @ snaps) - 20) (history st @ snaps)"
    by blast
  have n: "length snaps = 25" using 2(3) assms(3) by simp
  have "length (history st @ snaps) - 20 = length (history st) + 5" using n by simp
  then have h: "history st2 = drop 5 snaps" unfolding 2(4) by simp
  then have l: "length (history st2) = 20" using n by simp
  from 2(2) obtain b2 where "baseLayer st2 = Some b2" "last (history st2) = b2"
    by (auto elim!: sessionInvD)
  moreover have "last (drop 5 snaps) = last snaps" using n by (simp add: last_drop)
  ultimately have "baseLayer st2 = Some (last snaps)" using h by simp
  with 2(1) n h l have many: "\<exists>st' snaps. commitRounds p rs st = Inr (st', snaps) \<and>
      length snaps = 25 \<and> history st' = drop 5 snaps \<and> length (history st') = 20 \<and>
      baseLayer st' = Some (last snaps)"
    by blast
  show ?thesis using len ne b top one many by simp
qed

theorem history_bounded_fifo_witness:
  "run exEnv [Mount (exProps 0)] exEmpty = Inr exLoaded \<and>
   triggerManualApply (exProps 1) \<noteq> Number 0 \<and> length exRounds = 25 \<and>
   history exLoaded = [exImage] \<and> baseLayer exLoaded = Some exImage \<and>
   (\<exists>st'. manualApplyEffect (exProps 1) exLoaded = Inr st' \<and>
      baseLayer st' = Some (last (history st')) \<and>
      history st' = [exImage, last (history st')]) \<and>
   (\<exists>st' snaps. commitRounds (exProps 1) exRounds exLoaded = Inr (st', snaps) \<and>
      length snaps = 25 \<and> history st' = drop 5 snaps \<and> length (history st') = 20 \<and>
      baseLayer st' = Some (last snaps))"
proof -
  have t: "triggerManualApply (exProps 1) \<noteq> Number 0" by (simp add: exProps_triggers)
  have r: "length exRounds = 25" by (simp add: exRounds_def)
  from history_bounded_fifo [OF exRun(1) t r]
  show ?thesis using exRun(1) t r by (simp add: exLoaded_fields)
qed

text \<open>
  C6. In every state that a run of the component reaches from a mount, a commit succeeds,
  and an undo right after it gives back the base layer of before the commit and leaves
  the mask as the commit left it.
\<close>

theorem commit_then_undo_restores:
  assumes "run e (Mount p0 # evs) st0 = Inr st" and "triggerManualApply p \<noteq> Number 0"
    and "triggerUndo q \<noteq> Number 0"
  shows "\<exists>st1. manualApplyEffect p st = Inr st1 \<and>
           baseLayer (undoEffect q st1) = baseLayer st \<and>
           maskLayer (undoEffect q st1) = maskLayer st1"
proof -
  have inv: "sessionInv st" by (rule run_mount_inv [OF assms(1)])
  then obtain b where b: "baseLayer st = Some b" and ne: "history st \<noteq> []"
    and len: "length (history st) \<le> 20" and top: "last (history st) = b"
    by (auto elim!: sessionInvD)
  from manualApplyEffect_history [OF inv assms(2)]
  obtain st1 where 1: "manualApplyEffect p st = Inr st1" "sessionInv st1"
    "history st1 = pushHistory (last (history st1)) (history st)"
    by blast
  let ?kept = "if length (history st) < 20 then history st else tl (history st)"
  have h: "history st1 = ?kept @ [last (history st1)]"
    using 1(3) pushHistory_props(1) [OF len, of "last (history st1)"] by simp
  have kept: "?kept \<noteq> []" "last ?kept = b"
  proof -
    obtain x xs where c: "history st = x # xs" using ne by (cases "history st") auto
    show "?kept \<noteq> []" using c by auto
    show "last ?kept = b" using c top by auto
  qed
  from h have bl: "butlast (history st1) = ?kept" by (metis butlast_snoc)
  have "1 < length (history st1)" using kept(1) by (subst h) (simp add: Suc_lessI)
  from undoEffect_result [OF 1(2) assms(3) this]
  have "baseLayer (undoEffect q st1) = Some (last (butlast (history st1)))"
    by (simp add: onProcessedImageUpdate_fields renderCanvas_fields)
  then have "baseLayer (undoEffect q st1) = baseLayer st" unfolding bl kept(2) b .
  with 1(1) show ?thesis by (auto simp: maskLayer_undoEffect)
qed

theorem commit_then_undo_restores_witness:
  "run exEnv [Mount (exProps 0), Stroke (\<lambda>i. 255) (exProps 0)] exEmpty = Inr exPainted \<and>
   triggerManualApply (exProps 1) \<noteq> Number 0 \<and> triggerUndo (exProps 1) \<noteq> Number 0 \<and>
   manualApplyEffect (exProps 1) exPainted = Inr exErased \<and>
   baseLayer exPainted = Some exImage \<and> baseLayer exErased = Some exErasedBase \<and>
   baseLayer (undoEffect (exProps 1) exErased) = Some exImage \<and>
   maskLayer (undoEffect (exProps 1) exErased) = maskLayer exErased"
proof -
  have t: "triggerManualApply (exProps 1) \<noteq> Number 0" "triggerUndo (exProps 1) \<noteq> Number 0"
    by (simp_all add: exProps_triggers)
  have "baseLayer (undoEffect (exProps 1) exErased) = baseLayer exPainted \<and>
        maskLayer (undoEffect (exProps 1) exErased) = maskLayer exErased"
    using commit_then_undo_restores [OF exRun(2) t] unfolding exErased_committed by auto
  then show ?thesis
    using exRun(2) t exErased_committed exPainted_fields(2) exErased_fields(2) by simp
qed

end
